theory Spec2Isabelle
  imports Main "HOL-Library.Sublist" "HOL-Library.AList"
begin

section \<open>Python values, exceptions and callables\<close>

text \<open>
  Python strings are modelled as \<^typ>\<open>string\<close>. The non-ASCII literals of the source are
  written as their UTF-8 bytes; concatenation, equality and the substring test \<open>in\<close>
  (\<^const>\<open>sublist\<close>) commute with that encoding.
\<close>

datatype pyval =
    PNone
  | PStr string
  | PInt int
  | PBool bool
  | PList "pyval list"
  | PDict "(string \<times> pyval) list"

text \<open>
  Exceptions carry their class and their \<open>str(e)\<close>. \<open>SystemExit\<close> and
  \<open>KeyboardInterrupt\<close> derive from \<open>BaseException\<close> only, so \<open>except Exception\<close> lets
  them through; \<open>sys.exit(0)\<close> is \<open>SystemExit\<close> with text \<open>0\<close>.
\<close>

datatype exn_class =
    TypeError | ValueError | KeyError | IndexError | AttributeError
  | JSONDecodeError | ConnectionError | OtherException string
  | SystemExit | KeyboardInterrupt

datatype exn = Exn (exn_cls: exn_class) (exn_str: string)

fun is_Exception :: "exn \<Rightarrow> bool" where
  "is_Exception (Exn SystemExit _) = False"
| "is_Exception (Exn KeyboardInterrupt _) = False"
| "is_Exception (Exn _ _) = True"

fun is_TypeError :: "exn \<Rightarrow> bool" where
  "is_TypeError (Exn TypeError _) = True"
| "is_TypeError (Exn _ _) = False"

definition sys_exit_0 :: exn where
  "sys_exit_0 = Exn SystemExit ''0''"

text \<open>
  How a callable is applied: \<open>f()\<close>, \<open>f(v)\<close> or \<open>f(**d)\<close>.
\<close>

datatype call_args = NoArgs | Positional pyval | Kwargs "(string \<times> pyval) list"

text \<open>
  What \<open>inspect.signature\<close> shows of one parameter: its kind and whether it has a default.
\<close>

datatype param_kind =
  POSITIONAL_ONLY | POSITIONAL_OR_KEYWORD | VAR_POSITIONAL | KEYWORD_ONLY | VAR_KEYWORD

record parameter =
  p_name :: string
  p_kind :: param_kind
  p_has_default :: bool

text \<open>
  A tool callable is its signature and its behaviour. The behaviour is a parameter of the
  model: applied to arguments in a world \<open>'w\<close> (everything outside the calling agent) it
  either returns a value or raises, and leaves a new world.
\<close>

record 'w callable =
  signature :: "parameter list"
  invoke :: "call_args \<Rightarrow> 'w \<Rightarrow> (exn + pyval) \<times> 'w"

section \<open>The tool registry (agent_tool.py)\<close>

record 'w tool_info =
  ti_function :: "'w callable"
  ti_allowed_agents :: "string list option"
  ti_description :: string
  ti_name :: string

text \<open>
  \<open>_tools\<close> is a dict read in insertion order, hence an association list updated with
  \<^const>\<open>AList.update\<close> (a stored key keeps its place, a new key goes last);
  \<open>_uuid_to_name\<close> is only looked up, hence a map.
\<close>

record 'w tool =
  tools :: "(string \<times> 'w tool_info) list"
  uuid_to_name :: "string \<rightharpoonup> string"

definition tool_init :: "'w tool" where
  "tool_init = \<lparr>tools = [], uuid_to_name = Map.empty\<rparr>"

definition register_agent_uuid :: "string \<Rightarrow> string \<Rightarrow> 'w tool \<Rightarrow> 'w tool" where
  "register_agent_uuid uuid name reg = reg\<lparr>uuid_to_name := (uuid_to_name reg)(uuid \<mapsto> name)\<rparr>"

text \<open>The \<open>allowed_agents\<close> argument of the decorator: \<open>None\<close>, one string, or a list.\<close>

datatype allowed_arg = AllowNone | AllowStr string | AllowList "string list"

fun permitted_of :: "allowed_arg \<Rightarrow> string list option" where
  "permitted_of AllowNone = None"
| "permitted_of (AllowStr s) = Some [s]"
| "permitted_of (AllowList xs) = Some xs"

text \<open>
  \<open>register_tool(allowed_agents, description, name)(func)\<close>; \<open>tool_name\<close> is
  \<open>name or func.__name__\<close>.
\<close>

definition register_tool ::
  "allowed_arg \<Rightarrow> string \<Rightarrow> string option \<Rightarrow> string \<Rightarrow> 'w callable \<Rightarrow> 'w tool \<Rightarrow> 'w tool" where
  "register_tool allowed_agents description name func_name func reg =
     (let tool_name = (case name of None \<Rightarrow> func_name
                        | Some n \<Rightarrow> if n = [] then func_name else n);
          permitted = permitted_of allowed_agents
      in reg\<lparr>tools := AList.update tool_name
                 \<lparr>ti_function = func, ti_allowed_agents = permitted,
                  ti_description = description, ti_name = tool_name\<rparr> (tools reg)\<rparr>)"

definition get_tool_info :: "'w tool \<Rightarrow> string \<Rightarrow> 'w tool_info option" where
  "get_tool_info reg tool_name = map_of (tools reg) tool_name"

text \<open>The name the permission check compares: the uuid mapping applied when it has the key.\<close>

definition canonical_name :: "'w tool \<Rightarrow> string \<Rightarrow> string" where
  "canonical_name reg agent_name =
     (case uuid_to_name reg agent_name of Some n \<Rightarrow> n | None \<Rightarrow> agent_name)"

definition check_permission :: "'w tool \<Rightarrow> string \<Rightarrow> string \<Rightarrow> bool" where
  "check_permission reg agent_name tool_name =
     (case map_of (tools reg) tool_name of
        None \<Rightarrow> False
      | Some tool_info \<Rightarrow>
          (let agent_name' = canonical_name reg agent_name in
           case ti_allowed_agents tool_info of
             None \<Rightarrow> True
           | Some allowed \<Rightarrow> agent_name' \<in> set allowed))"

definition get_all_tools_info :: "'w tool \<Rightarrow> string \<Rightarrow> (string \<times> string) list" where
  "get_all_tools_info reg agent_uuid =
     map (\<lambda>(tool_name, tool_info). (tool_name, ti_description tool_info))
       (filter (\<lambda>(tool_name, tool_info). check_permission reg agent_uuid tool_name) (tools reg))"

definition get_all_tools_schema :: "'w tool \<Rightarrow> string \<Rightarrow> string list" where
  "get_all_tools_schema reg agent_uuid =
     map fst (filter (\<lambda>(tool_name, tool_info). check_permission reg agent_uuid tool_name)
       (tools reg))"

section \<open>The agent directory (Agent_list.py)\<close>

text \<open>
  Instances live in a heap and are named by their address, so that "the same object" is
  equality of addresses. \<open>cls()\<close> may raise; then nothing is stored.
\<close>

record 'a directory =
  heap :: "'a list"
  agent_list :: "string \<rightharpoonup> nat"

definition register_agent ::
  "string \<Rightarrow> string \<Rightarrow> (string \<Rightarrow> string \<Rightarrow> exn + 'a) \<Rightarrow> 'a directory \<Rightarrow> exn + 'a directory" where
  "register_agent uuid name cls d =
     (case cls uuid name of
        Inl e \<Rightarrow> Inl e
      | Inr inst \<Rightarrow>
          (let r = length (heap d);
               d1 = d\<lparr>heap := heap d @ [inst]\<rparr>;
               d2 = d1\<lparr>agent_list := (agent_list d1)(uuid \<mapsto> r)\<rparr>;
               d3 = d2\<lparr>agent_list := (agent_list d2)(name \<mapsto> r)\<rparr>
           in Inr d3))"

definition lookup_agent :: "'a directory \<Rightarrow> string \<Rightarrow> exn + nat" where
  "lookup_agent d key =
     (case agent_list d key of None \<Rightarrow> Inl (Exn KeyError key) | Some r \<Rightarrow> Inr r)"

section \<open>Agent state and construction (Agent_Base_.py)\<close>

datatype role = System | User | Assistant

datatype part = TextPart string | ImageUrl string

text \<open>
  Message content is a text, a list of text and image parts, or the f-string
  \<open>f"{name} results: {i}"\<close> kept as its two arguments (\<open>str(i)\<close> of an arbitrary result is
  not rendered).
\<close>

datatype content = Text string | Parts "part list" | ResultsOf string pyval

record tool_call =
  tc_id :: "string option"
  tc_name :: string
  tc_arguments :: string

datatype message =
    Msg role content
  | AssistantToolCalls "tool_call list"
  | ToolMsg "string option" string pyval

record request =
  rq_messages :: "message list"
  rq_tools :: "string list option"

text \<open>What \<open>out\<close> prints: a tool call line, a message (\<open>print(None)\<close> included), a newline.\<close>

datatype out_event =
    PrintToolCall string "(string \<times> pyval) list option"
  | PrintMessage "string option"
  | PrintNewline
  | PrintBlock string

text \<open>
  The class side of an agent. \<open>fc_model\<close> is \<open>None\<close> when the attribute is absent.
  \<open>methods\<close> gives, for a name, the attribute of that name when it exists and is callable
  (\<open>hasattr(self, n) and callable(getattr(self, n))\<close>): every subclass of \<open>Agent\<close> inherits
  \<open>conversation_with_tool\<close>, \<open>Connectivity\<close>, \<open>pack\<close>, \<open>out\<close>, \<open>ask_for_help\<close>, \<open>list_agents\<close>
  and \<open>attempt_completion\<close>, so a faithful instance answers for each of these names.
\<close>

record 'w agent =
  ag_uuid :: string
  ag_name :: string
  ag_class_name :: string
  ag_prompt :: string
  fc_model :: "bool option"
  stream :: bool
  methods :: "string \<Rightarrow> 'w callable option"

record 'w agent_state =
  history :: "message list"
  out_log :: "out_event list"
  sent :: "request list"
  world :: 'w

definition hello_msg :: string where
  "hello_msg = [CHR 0xE4, CHR 0xBD, CHR 0xA0, CHR 0xE5, CHR 0xA5, CHR 0xBD]"

definition tools_header :: string where
  "tools_header = [CHR 0x0A, CHR 0x0A, CHR 0xE4, CHR 0xBD, CHR 0xA0, CHR 0xE5, CHR 0x8F, CHR 0xAF,
     CHR 0xE4, CHR 0xBB, CHR 0xA5, CHR 0xE4, CHR 0xBD, CHR 0xBF, CHR 0xE7, CHR 0x94, CHR 0xA8,
     CHR 0xE4, CHR 0xBB, CHR 0xA5, CHR 0xE4, CHR 0xB8, CHR 0x8B, CHR 0xE5, CHR 0xB7, CHR 0xA5,
     CHR 0xE5, CHR 0x85, CHR 0xB7, CHR 0xEF, CHR 0xBC, CHR 0x9A, CHR 0x0A]"

definition uuid_suffix :: string where
  "uuid_suffix = [CHR 0x2C, CHR 0x20, CHR 0xE4, CHR 0xBD, CHR 0xA0, CHR 0xE7, CHR 0x9A, CHR 0x84,
     CHR 0x75, CHR 0x75, CHR 0x69, CHR 0x64, CHR 0x20]"

definition desc_ask_for_help :: string where
  "desc_ask_for_help = [CHR 0xE8, CHR 0xAF, CHR 0xB7, CHR 0xE6, CHR 0xB1, CHR 0x82, CHR 0xE5,
     CHR 0x85, CHR 0xB6, CHR 0xE4, CHR 0xBB, CHR 0x96, CHR 0x41, CHR 0x67, CHR 0x65, CHR 0x6E,
     CHR 0x74, CHR 0xE5, CHR 0xB8, CHR 0xAE, CHR 0xE5, CHR 0x8A, CHR 0xA9, CHR 0xEF, CHR 0xBC,
     CHR 0x8C, CHR 0xE5, CHR 0x8F, CHR 0x82, CHR 0xE6, CHR 0x95, CHR 0xB0, CHR 0x3A, CHR 0x20,
     CHR 0x61, CHR 0x67, CHR 0x65, CHR 0x6E, CHR 0x74, CHR 0x5F, CHR 0x69, CHR 0x64, CHR 0x28,
     CHR 0xE7, CHR 0x9B, CHR 0xAE, CHR 0xE6, CHR 0xA0, CHR 0x87, CHR 0x41, CHR 0x67, CHR 0x65,
     CHR 0x6E, CHR 0x74, CHR 0xE7, CHR 0x9A, CHR 0x84, CHR 0x55, CHR 0x55, CHR 0x49, CHR 0x44,
     CHR 0xE6, CHR 0x88, CHR 0x96, CHR 0xE5, CHR 0x90, CHR 0x8D, CHR 0xE7, CHR 0xA7, CHR 0xB0,
     CHR 0x29, CHR 0x2C, CHR 0x20, CHR 0x6D, CHR 0x65, CHR 0x73, CHR 0x73, CHR 0x61, CHR 0x67,
     CHR 0x65, CHR 0x28, CHR 0xE8, CHR 0xAF, CHR 0xB7, CHR 0xE6, CHR 0xB1, CHR 0x82, CHR 0xE5,
     CHR 0x86, CHR 0x85, CHR 0xE5, CHR 0xAE, CHR 0xB9, CHR 0x29]"

definition desc_list_agents :: string where
  "desc_list_agents = [CHR 0xE5, CHR 0x88, CHR 0x97, CHR 0xE5, CHR 0x87, CHR 0xBA, CHR 0xE6,
     CHR 0x89, CHR 0x80, CHR 0xE6, CHR 0x9C, CHR 0x89, CHR 0xE5, CHR 0x8F, CHR 0xAF, CHR 0xE7,
     CHR 0x94, CHR 0xA8, CHR 0xE7, CHR 0x9A, CHR 0x84, CHR 0x41, CHR 0x67, CHR 0x65, CHR 0x6E,
     CHR 0x74, CHR 0xE5, CHR 0x8F, CHR 0x8A, CHR 0xE5, CHR 0x85, CHR 0xB6, CHR 0x55, CHR 0x55,
     CHR 0x49, CHR 0x44, CHR 0xE5, CHR 0x92, CHR 0x8C, CHR 0xE5, CHR 0x90, CHR 0x8D, CHR 0xE7,
     CHR 0xA7, CHR 0xB0]"

definition desc_attempt_completion :: string where
  "desc_attempt_completion = [CHR 0xE6, CHR 0xA0, CHR 0x87, CHR 0xE8, CHR 0xAE, CHR 0xB0,
     CHR 0xE4, CHR 0xBB, CHR 0xBB, CHR 0xE5, CHR 0x8A, CHR 0xA1, CHR 0xE5, CHR 0xAE, CHR 0x8C,
     CHR 0xE6, CHR 0x88, CHR 0x90, CHR 0xE5, CHR 0xB9, CHR 0xB6, CHR 0xE9, CHR 0x80, CHR 0x80,
     CHR 0xE5, CHR 0x87, CHR 0xBA, CHR 0xEF, CHR 0xBC, CHR 0x8C, CHR 0xE5, CHR 0x8F, CHR 0x82,
     CHR 0xE6, CHR 0x95, CHR 0xB0, CHR 0x3A, CHR 0x20, CHR 0x72, CHR 0x65, CHR 0x70, CHR 0x6F,
     CHR 0x72, CHR 0x74, CHR 0x5F, CHR 0x63, CHR 0x6F, CHR 0x6E, CHR 0x74, CHR 0x65, CHR 0x6E,
     CHR 0x74, CHR 0x28, CHR 0xE6, CHR 0xB1, CHR 0x87, CHR 0xE6, CHR 0x8A, CHR 0xA5, CHR 0xE5,
     CHR 0x86, CHR 0x85, CHR 0xE5, CHR 0xAE, CHR 0xB9, CHR 0xEF, CHR 0xBC, CHR 0x8C, CHR 0xE5,
     CHR 0x8F, CHR 0xAF, CHR 0xE9, CHR 0x80, CHR 0x89, CHR 0x29]"

definition conn_error_text :: string where
  "conn_error_text = [CHR 0xE8, CHR 0xAF, CHR 0xB7, CHR 0xE6, CHR 0xA3, CHR 0x80, CHR 0xE6,
     CHR 0x9F, CHR 0xA5, CHR 0x61, CHR 0x70, CHR 0x69, CHR 0x5F, CHR 0x70, CHR 0x72, CHR 0x6F,
     CHR 0x76, CHR 0x69, CHR 0x64, CHR 0x65, CHR 0x72, CHR 0xEF, CHR 0xBC, CHR 0x8C, CHR 0x6D,
     CHR 0x6F, CHR 0x64, CHR 0x65, CHR 0x6C, CHR 0x5F, CHR 0x6E, CHR 0x61, CHR 0x6D, CHR 0x65,
     CHR 0xEF, CHR 0xBC, CHR 0x8C, CHR 0x61, CHR 0x70, CHR 0x69, CHR 0x5F, CHR 0x6B, CHR 0x65,
     CHR 0x79]"

definition builtin_tools :: "(string \<times> string) list" where
  "builtin_tools =
     [(''ask_for_help'', desc_ask_for_help),
      (''list_agents'', desc_list_agents),
      (''attempt_completion'', desc_attempt_completion)]"

definition tool_line :: "string \<times> string \<Rightarrow> string" where
  "tool_line = (\<lambda>(tool_name, desc). ''- '' @ tool_name @ '': '' @ desc @ [CHR 0x0A])"

text \<open>Lines 50 to 81 of \<open>__init__\<close>: the system prompt the constructor builds.\<close>

definition init_prompt :: "'w tool \<Rightarrow> 'w agent \<Rightarrow> string" where
  "init_prompt reg ag =
     (let tools_info = get_all_tools_info reg (ag_uuid ag);
          tools_list = map fst tools_info
             @ map fst (filter (\<lambda>(tool_name, tool_desc). methods ag tool_name \<noteq> None) builtin_tools);
          tools_prompt =
            (if tools_list \<noteq> [] then
               tools_header
               @ concat (map tool_line tools_info)
               @ concat (map tool_line
                   (filter (\<lambda>(tool_name, tool_desc).
                      tool_name \<in> set tools_list \<and> tool_name \<notin> set (map fst tools_info))
                    builtin_tools))
             else [])
      in ag_prompt ag @ tools_prompt @ uuid_suffix @ ag_uuid ag)"

text \<open>
  \<open>Connectivity\<close>: the probe appends a user message, posts the history, resets the history
  and reports whether the status was 200. The status is what the transport answered.
\<close>

definition Connectivity :: "'w agent \<Rightarrow> nat \<Rightarrow> 'w agent_state \<Rightarrow> bool \<times> 'w agent_state" where
  "Connectivity ag status st =
     (let st1 = st\<lparr>history := history st @ [Msg User (Text hello_msg)]\<rparr>;
          st2 = st1\<lparr>sent := sent st1 @ [\<lparr>rq_messages = history st1, rq_tools = None\<rparr>]\<rparr>;
          st3 = st2\<lparr>history := [Msg System (Text (ag_prompt ag))]\<rparr>
      in (status = 200, st3))"

text \<open>The state \<open>__init__\<close> has built when it calls \<open>Connectivity\<close>.\<close>

definition pre_probe_state :: "'w tool \<Rightarrow> 'w agent \<Rightarrow> 'w \<Rightarrow> 'w agent_state" where
  "pre_probe_state reg ag w =
     \<lparr>history = [Msg System (Text (init_prompt reg ag))], out_log = [], sent = [], world = w\<rparr>"

definition agent_init ::
  "'w agent \<Rightarrow> nat \<Rightarrow> 'w tool \<Rightarrow> 'w \<Rightarrow> 'w tool \<times> (exn + 'w agent_state)" where
  "agent_init ag status reg w =
     (let agent_name = (if ag_name ag \<noteq> [] then ag_name ag else ag_class_name ag);
          reg1 = (if agent_name \<noteq> [] \<and> ag_uuid ag \<noteq> []
                  then register_agent_uuid (ag_uuid ag) agent_name reg else reg);
          (ok, st) = Connectivity ag status (pre_probe_state reg1 ag w)
      in if \<not> ok then (reg1, Inl (Exn ConnectionError conn_error_text))
         else (reg1, Inr st))"

section \<open>The program's own instances (main.py)\<close>

text \<open>
  The registry and the agent that \<open>main.py\<close> sets up, used as concrete inputs. The
  built-in \<open>attempt_completion\<close> ends in \<open>sys.exit(0)\<close> whatever it is given; its
  \<open>print\<close> is an effect on the world and is left out. Of the callable attributes the
  agent inherits, \<open>time_agent\<close> gives \<open>attempt_completion\<close> only: \<open>ask_for_help\<close> and
  \<open>list_agents\<close> act on the directory of agents and are not embedded, so the tool listing
  of its first system message is shorter here than in the program by their two lines.
\<close>

definition time_agent_uuid :: string where
  "time_agent_uuid = ''8841cd45eef54217bc8122cafebe5fd6''"

definition get_time_desc :: string where
  "get_time_desc = [CHR 0xE8, CHR 0x8E, CHR 0xB7, CHR 0xE5, CHR 0x8F, CHR 0x96, CHR 0xE5, CHR 0xBD, CHR 0x93,
     CHR 0xE5, CHR 0x89, CHR 0x8D, CHR 0xE6, CHR 0x97, CHR 0xB6, CHR 0xE9, CHR 0x97, CHR 0xB4]"

definition get_time :: "'w callable" where
  "get_time = \<lparr>signature = [\<lparr>p_name = ''xml'', p_kind = POSITIONAL_OR_KEYWORD, p_has_default = True\<rparr>],
               invoke = (\<lambda>args w. (Inr (PStr ''11:03''), w))\<rparr>"

definition attempt_completion :: "'w callable" where
  "attempt_completion = \<lparr>signature = [\<lparr>p_name = ''kwargs'', p_kind = VAR_KEYWORD, p_has_default = False\<rparr>],
               invoke = (\<lambda>args w. (Inl sys_exit_0, w))\<rparr>"

definition main_registry :: "'w tool" where
  "main_registry =
     register_agent_uuid time_agent_uuid ''time_agent''
       (register_tool (AllowList [time_agent_uuid, ''time_agent'']) get_time_desc
          (Some ''get_time'') ''get_time'' get_time tool_init)"

definition time_agent_prompt :: string where
  "time_agent_prompt = [CHR 0xE4, CHR 0xBD, CHR 0xA0, CHR 0xE6, CHR 0x98, CHR 0xAF, CHR 0xE4, CHR 0xB8, CHR 0x80,
     CHR 0xE4, CHR 0xB8, CHR 0xAA, CHR 0xE5, CHR 0x90, CHR 0x8D, CHR 0xE4, CHR 0xB8, CHR 0xBA,
     CHR 0xE6, CHR 0xB1, CHR 0xA4, CHR 0xE5, CHR 0x9C, CHR 0x86, CHR 0x41, CHR 0x67, CHR 0x65,
     CHR 0x6E, CHR 0x74, CHR 0xE7, CHR 0x9A, CHR 0x84, CHR 0x41, CHR 0x47, CHR 0x49, CHR 0xE7,
     CHR 0x9A, CHR 0x84, CHR 0xE5, CHR 0xAD, CHR 0x90, CHR 0x61, CHR 0x67, CHR 0x65, CHR 0x6E,
     CHR 0x74, CHR 0xE5, CHR 0x90, CHR 0x8D, CHR 0xE4, CHR 0xB8, CHR 0xBA, CHR 0xE6, CHR 0x97,
     CHR 0xB6, CHR 0xE9, CHR 0x97, CHR 0xB4, CHR 0xE7, CHR 0xAE, CHR 0xA1, CHR 0xE7, CHR 0x90,
     CHR 0x86, CHR 0xE8, CHR 0x80, CHR 0x85, CHR 0xEF, CHR 0xBC, CHR 0x8C, CHR 0x20, CHR 0xE4,
     CHR 0xBD, CHR 0xA0, CHR 0xE5, CHR 0x8F, CHR 0xAF, CHR 0xE4, CHR 0xBB, CHR 0xA5, CHR 0xE9,
     CHR 0x80, CHR 0x9A, CHR 0xE8, CHR 0xBF, CHR 0x87, CHR 0xE5, CHR 0xB7, CHR 0xA5, CHR 0xE5,
     CHR 0x85, CHR 0xB7, CHR 0xE8, CHR 0x8E, CHR 0xB7, CHR 0xE5, CHR 0x8F, CHR 0x96, CHR 0xE6,
     CHR 0x97, CHR 0xB6, CHR 0xE9, CHR 0x97, CHR 0xB4]"

definition time_agent :: "'w agent" where
  "time_agent = \<lparr>ag_uuid = time_agent_uuid, ag_name = ''time_agent'', ag_class_name = ''time_agent'',
      ag_prompt = time_agent_prompt, fc_model = None, stream = True,
      methods = (\<lambda>n. if n = ''attempt_completion'' then Some attempt_completion else None)\<rparr>"

section \<open>Registry and directory properties\<close>

lemma map_of_register_tool:
  "map_of (tools (register_tool allowed d (Some t) fn f reg)) t' =
     (if t' = (if t = [] then fn else t)
      then Some \<lparr>ti_function = f, ti_allowed_agents = permitted_of allowed,
                 ti_description = d, ti_name = t'\<rparr>
      else map_of (tools reg) t')"
  by (simp add: register_tool_def update_conv')

lemma canonical_name_mapped:
  "uuid_to_name reg key = Some n \<Longrightarrow> canonical_name reg key = n"
  by (simp add: canonical_name_def)

lemma canonical_name_unmapped:
  "uuid_to_name reg key = None \<Longrightarrow> canonical_name reg key = key"
  by (simp add: canonical_name_def)

text \<open>
  C5. A registered tool with an allow-list is permitted exactly for the keys whose canonical
  name (the uuid mapping applied when it has the key, the key itself otherwise) is in the
  list; a registered tool without allow-list is permitted for every key.
\<close>

theorem check_permission_iff_allowed:
  assumes "map_of (tools reg) tool_name = Some info"
  shows "(\<forall>allowed. ti_allowed_agents info = Some allowed \<longrightarrow>
            check_permission reg key tool_name
              = ((case uuid_to_name reg key of Some n \<Rightarrow> n | None \<Rightarrow> key) \<in> set allowed))
         \<and> (ti_allowed_agents info = None \<longrightarrow> check_permission reg key tool_name)"
  using assms by (simp add: check_permission_def canonical_name_def)

theorem check_permission_iff_allowed_witness:
  "check_permission (main_registry :: unit tool) time_agent_uuid ''get_time''
   \<and> check_permission (main_registry :: unit tool) ''time_agent'' ''get_time''
   \<and> \<not> check_permission (main_registry :: unit tool) ''scheduling_agent'' ''get_time''"
proof -
  let ?info = "\<lparr>ti_function = get_time :: unit callable,
                 ti_allowed_agents = Some [time_agent_uuid, ''time_agent''],
                 ti_description = get_time_desc, ti_name = ''get_time''\<rparr>"
  have h: "map_of (tools (main_registry :: unit tool)) ''get_time'' = Some ?info"
    by (simp add: main_registry_def register_agent_uuid_def map_of_register_tool)
  have u: "uuid_to_name (main_registry :: unit tool) = [time_agent_uuid \<mapsto> ''time_agent'']"
    by (simp add: main_registry_def register_agent_uuid_def register_tool_def tool_init_def Let_def)
  show ?thesis
    using check_permission_iff_allowed [OF h, of time_agent_uuid]
      check_permission_iff_allowed [OF h, of "''time_agent''"]
      check_permission_iff_allowed [OF h, of "''scheduling_agent''"]
    by (simp add: u time_agent_uuid_def)
qed

text \<open>
  C9. After \<open>register_agent(uuid, name)\<close> has decorated a class whose construction
  succeeded, the lookups under the uuid and under the name both succeed and give the same
  address: that of the one instance the decorator built.
\<close>

theorem register_agent_dual_key:
  assumes "register_agent uuid name cls d = Inr d'"
  shows "\<exists>r inst. cls uuid name = Inr inst
           \<and> lookup_agent d' uuid = Inr r \<and> lookup_agent d' name = Inr r
           \<and> r = length (heap d) \<and> heap d' = heap d @ [inst]"
  using assms
  by (auto simp: register_agent_def lookup_agent_def Let_def split: sum.splits)

theorem register_agent_dual_key_witness:
  "\<exists>d'. register_agent ''foo'' ''bar'' (\<lambda>u n. Inr (u, n)) \<lparr>heap = [], agent_list = Map.empty\<rparr> = Inr d'
        \<and> lookup_agent d' ''foo'' = Inr 0 \<and> lookup_agent d' ''bar'' = Inr 0
        \<and> heap d' = [(''foo'', ''bar'')]"
proof -
  obtain d' where h: "register_agent ''foo'' ''bar'' (\<lambda>u n. Inr (u, n))
      \<lparr>heap = [], agent_list = Map.empty\<rparr> = Inr (d' :: (string \<times> string) directory)"
    by (simp add: register_agent_def)
  from register_agent_dual_key [OF h] have
    "lookup_agent d' ''foo'' = Inr 0 \<and> lookup_agent d' ''bar'' = Inr 0 \<and> heap d' = [(''foo'', ''bar'')]"
    by auto
  with h show ?thesis by blast
qed

section \<open>Construction and the connectivity probe\<close>

lemma uuid_suffix_nonempty: "uuid_suffix \<noteq> []"
  by (simp add: uuid_suffix_def)

lemma init_prompt_longer: "length (ag_prompt ag) < length (init_prompt reg ag)"
  using uuid_suffix_nonempty by (simp add: init_prompt_def Let_def)

text \<open>
  C10. When the constructor returns (the probe answered 200), the history is one system
  message whose content is the bare prompt; the message the constructor had built before the
  probe, the prompt followed by the tool listing and the uuid suffix, is a different text.
\<close>

theorem connectivity_resets_history:
  assumes "agent_init ag status reg w = (reg', Inr st)"
  shows "status = 200
         \<and> history st = [Msg System (Text (ag_prompt ag))]
         \<and> history (pre_probe_state reg' ag w) = [Msg System (Text (init_prompt reg' ag))]
         \<and> (\<exists>tools_prompt. init_prompt reg' ag = ag_prompt ag @ tools_prompt @ uuid_suffix @ ag_uuid ag)
         \<and> init_prompt reg' ag \<noteq> ag_prompt ag"
proof -
  have ne: "init_prompt reg' ag \<noteq> ag_prompt ag"
    using init_prompt_longer [of ag reg'] by auto
  have ex: "\<exists>tools_prompt. init_prompt reg' ag = ag_prompt ag @ tools_prompt @ uuid_suffix @ ag_uuid ag"
    by (simp add: init_prompt_def Let_def)
  from assms have "status = 200 \<and> history st = [Msg System (Text (ag_prompt ag))]"
    by (auto simp: agent_init_def Connectivity_def Let_def split: if_splits)
  with ne ex show ?thesis by (simp add: pre_probe_state_def)
qed

theorem connectivity_resets_history_witness:
  "\<exists>reg' st. agent_init (time_agent :: unit agent) 200 main_registry () = (reg', Inr st)
      \<and> history st = [Msg System (Text (ag_prompt (time_agent :: unit agent)))]"
proof -
  obtain reg' st where h: "agent_init (time_agent :: unit agent) 200 main_registry () = (reg', Inr st)"
    by (simp add: agent_init_def Connectivity_def Let_def)
  from connectivity_resets_history [OF h] h show ?thesis by blast
qed

section \<open>The inline-tag extractor (Agent_Base_.py, lines 380 to 383)\<close>

text \<open>
  \<open>xml_pattern = <(\w+)>.*?</\1>\<close> with \<open>re.S\<close>, read by \<open>finditer\<close>. At a position the
  pattern needs \<open><\<close>, then the longest run of word characters (a shorter one is followed
  by a word character, not by \<open>>\<close>), then \<open>>\<close>, then the shortest text up to the first
  \<open></name>\<close>. A match ends where the next search starts; a position with no match is
  skipped. The class \<open>\w\<close> is modelled on ASCII: letters, digits and the underscore. On a
  \<open>str\<close> pattern Python's \<open>\w\<close> also matches the letters and digits outside ASCII; here a
  string is its UTF-8 bytes and a byte above 127 is no word character, so a tag whose name
  has such a letter is read differently from the source. The model is exact on texts whose
  tag names are ASCII, which is what the statements below are about.
\<close>

definition is_word_char :: "char \<Rightarrow> bool" where
  "is_word_char c =
     (let n = (of_char c :: nat) in
      (48 \<le> n \<and> n \<le> 57) \<or> (65 \<le> n \<and> n \<le> 90) \<or> n = 95 \<or> (97 \<le> n \<and> n \<le> 122))"

fun find_first :: "string \<Rightarrow> string \<Rightarrow> (string \<times> string) option" where
  "find_first needle [] = (if needle = [] then Some ([], []) else None)"
| "find_first needle (c # cs) =
     (if prefix needle (c # cs) then Some ([], drop (length needle) (c # cs))
      else map_option (\<lambda>(before, after). (c # before, after)) (find_first needle cs))"

definition match_block :: "string \<Rightarrow> (string \<times> string) option" where
  "match_block s =
     (case s of
        [] \<Rightarrow> None
      | c # s1 \<Rightarrow>
          if c \<noteq> CHR ''<'' then None
          else (let name = takeWhile is_word_char s1; s2 = dropWhile is_word_char s1 in
                if name = [] then None
                else (case s2 of
                        [] \<Rightarrow> None
                      | d # s3 \<Rightarrow>
                          if d \<noteq> CHR ''>'' then None
                          else (case find_first (''</'' @ name @ ''>'') s3 of
                                  None \<Rightarrow> None
                                | Some (body, rest) \<Rightarrow>
                                    Some (''<'' @ name @ ''>'' @ body @ ''</'' @ name @ ''>'', rest)))))"

lemma find_first_length:
  "find_first needle s = Some (before, after) \<Longrightarrow> needle \<noteq> [] \<Longrightarrow> length after \<le> length s"
  by (induction s arbitrary: before) (auto split: if_splits)

lemma find_first_decomp:
  "find_first needle s = Some (before, after) \<Longrightarrow> s = before @ needle @ after"
proof (induction s arbitrary: before)
  case Nil
  then show ?case by (auto split: if_splits)
next
  case (Cons c cs)
  show ?case
  proof (cases "prefix needle (c # cs)")
    case True
    with Cons.prems have "before = []" "after = drop (length needle) (c # cs)" by auto
    moreover from True obtain zs where "c # cs = needle @ zs" by (auto simp: prefix_def)
    ultimately show ?thesis by simp
  next
    case False
    with Cons.prems obtain b where "find_first needle cs = Some (b, after)" "before = c # b"
      by auto
    with Cons.IH show ?thesis by simp
  qed
qed

lemma match_block_length:
  "match_block s = Some (block, rest) \<Longrightarrow> length rest < length s"
proof -
  assume a: "match_block s = Some (block, rest)"
  then obtain c s1 where s: "s = c # s1" by (cases s) (auto simp: match_block_def)
  from a s obtain d s3 body where
    s2: "dropWhile is_word_char s1 = d # s3" and
    ff: "find_first (''</'' @ takeWhile is_word_char s1 @ ''>'') s3 = Some (body, rest)"
    by (auto simp: match_block_def Let_def split: if_splits list.splits option.splits)
  from ff have "length rest \<le> length s3" by (rule find_first_length) simp
  also have "length s3 < length (dropWhile is_word_char s1)" using s2 by simp
  also have "\<dots> \<le> length s1" by (rule length_dropWhile_le)
  finally show ?thesis using s by simp
qed

function finditer :: "string \<Rightarrow> string list" where
  "finditer [] = []"
| "finditer (c # cs) =
     (case match_block (c # cs) of
        Some (block, rest) \<Rightarrow> block # finditer rest
      | None \<Rightarrow> finditer cs)"
  by pat_completeness auto
termination
  by (relation "measure length") (auto dest: match_block_length)

text \<open>
  \<open>clean_pattern = </?(out_text|thinking)>\<close>, applied with \<open>sub('', ...)\<close>: one pass from the
  left, each of the four tags removed where it starts.
\<close>

definition wrapper_tags :: "string list" where
  "wrapper_tags = [''<out_text>'', ''</out_text>'', ''<thinking>'', ''</thinking>'']"

lemma wrapper_tag_nonempty:
  "find (\<lambda>t. prefix t s) wrapper_tags = Some t \<Longrightarrow> 0 < length t"
  by (auto simp: wrapper_tags_def split: if_splits)

function clean_sub :: "string \<Rightarrow> string" where
  "clean_sub [] = []"
| "clean_sub (c # cs) =
     (case find (\<lambda>t. prefix t (c # cs)) wrapper_tags of
        Some t \<Rightarrow> clean_sub (drop (length t) (c # cs))
      | None \<Rightarrow> c # clean_sub cs)"
  by pat_completeness auto
termination
  by (relation "measure length") (auto dest: wrapper_tag_nonempty)

definition xml_blocks :: "string \<Rightarrow> string list" where
  "xml_blocks full_content = finditer (clean_sub full_content)"

section \<open>The native-call accumulator (Agent_Base_.py, lines 252 to 271)\<close>

text \<open>
  A streamed fragment is a dict; a key may be absent. \<open>call['function']\<close> and
  \<open>call['function']['name']\<close> raise \<open>KeyError\<close> when the key is absent, the other reads
  use \<open>get\<close>. The accumulator decides between "new" and "seen" by comparing the index with
  the length of the list, and \<open>tool_calls_list[idx]\<close> follows Python indexing (a negative
  index counts from the end). The argument buffer holds raw text: nothing here parses it.
\<close>

definition key_error :: "string \<Rightarrow> exn" where
  "key_error k = Exn KeyError ([CHR 0x27] @ k @ [CHR 0x27])"

record fn_fragment =
  ff_name :: "string option"
  ff_arguments :: "string option"

record fragment =
  fr_index :: "int option"
  fr_id :: "string option"
  fr_function :: "fn_fragment option"

definition accumulate_call :: "fragment \<Rightarrow> tool_call list \<Rightarrow> exn + tool_call list" where
  "accumulate_call call tool_calls_list =
     (case fr_index call of
        None \<Rightarrow> Inr tool_calls_list
      | Some idx \<Rightarrow>
          if idx \<ge> int (length tool_calls_list) then
            (case fr_function call of
               None \<Rightarrow> Inl (key_error ''function'')
             | Some f \<Rightarrow>
                 (case ff_name f of
                    None \<Rightarrow> Inl (key_error ''name'')
                  | Some n \<Rightarrow>
                      Inr (tool_calls_list @
                        [\<lparr>tc_id = fr_id call, tc_name = n,
                          tc_arguments = (case ff_arguments f of None \<Rightarrow> [] | Some a \<Rightarrow> a)\<rparr>])))
          else
            (case fr_function call of
               None \<Rightarrow> Inl (key_error ''function'')
             | Some f \<Rightarrow>
                 (case ff_arguments f of
                    None \<Rightarrow> Inr tool_calls_list
                  | Some a \<Rightarrow>
                      (let n = int (length tool_calls_list);
                           j = (if idx < 0 then n + idx else idx)
                       in if 0 \<le> j \<and> j < n
                          then Inr (tool_calls_list[nat j :=
                                 (tool_calls_list ! nat j)
                                   \<lparr>tc_arguments := tc_arguments (tool_calls_list ! nat j) @ a\<rparr>])
                          else Inl (Exn IndexError ''list index out of range'')))))"

fun accumulate_calls :: "fragment list \<Rightarrow> tool_call list \<Rightarrow> exn + tool_call list" where
  "accumulate_calls [] tool_calls_list = Inr tool_calls_list"
| "accumulate_calls (call # calls) tool_calls_list =
     (case accumulate_call call tool_calls_list of
        Inl e \<Rightarrow> Inl e
      | Inr tool_calls_list' \<Rightarrow> accumulate_calls calls tool_calls_list')"

text \<open>
  What the specification promises, in its own words: the buffer of a call index is the
  concatenation, in arrival order, of the argument strings of the fragments carrying that
  index; its id and function name are those of the first such fragment.
\<close>

definition fragment_args :: "fragment \<Rightarrow> string" where
  "fragment_args call =
     (case fr_function call of
        None \<Rightarrow> []
      | Some f \<Rightarrow> (case ff_arguments f of None \<Rightarrow> [] | Some a \<Rightarrow> a))"

definition arrival_order_args :: "nat \<Rightarrow> fragment list \<Rightarrow> string" where
  "arrival_order_args k calls =
     concat (map fragment_args (filter (\<lambda>call. fr_index call = Some (int k)) calls))"

text \<open>
  A stream is well formed when every fragment that carries an index also carries a
  \<open>function\<close> object (the code reads \<open>call['function']\<close> on both branches), and the index is
  either the next unused one, the fragment then naming the function, or one already in use.
\<close>

fun well_formed_stream :: "nat \<Rightarrow> fragment list \<Rightarrow> bool" where
  "well_formed_stream n [] = True"
| "well_formed_stream n (call # calls) =
     (case fr_index call of
        None \<Rightarrow> well_formed_stream n calls
      | Some idx \<Rightarrow>
          if idx = int n
          then (case fr_function call of None \<Rightarrow> False | Some f \<Rightarrow> ff_name f \<noteq> None)
               \<and> well_formed_stream (Suc n) calls
          else 0 \<le> idx \<and> idx < int n \<and> fr_function call \<noteq> None \<and> well_formed_stream n calls)"

lemma accumulate_call_new:
  assumes "fr_index call = Some (int (length tcl))" "fr_function call = Some f" "ff_name f = Some n"
  shows "accumulate_call call tcl =
           Inr (tcl @ [\<lparr>tc_id = fr_id call, tc_name = n, tc_arguments = fragment_args call\<rparr>])"
  using assms by (simp add: accumulate_call_def fragment_args_def)

lemma accumulate_call_seen:
  assumes "fr_index call = Some (int k)" "k < length tcl" "fr_function call = Some f"
  shows "accumulate_call call tcl =
           Inr (tcl[k := (tcl ! k)\<lparr>tc_arguments := tc_arguments (tcl ! k) @ fragment_args call\<rparr>])"
proof (cases "ff_arguments f")
  case None
  with assms show ?thesis
    by (simp add: accumulate_call_def fragment_args_def list_update_same_conv)
next
  case (Some a)
  with assms show ?thesis
    by (simp add: accumulate_call_def fragment_args_def Let_def)
qed

lemma accumulate_calls_in_order:
  "well_formed_stream (length tcl) calls \<Longrightarrow>
   \<exists>tcl'. accumulate_calls calls tcl = Inr tcl'
     \<and> length tcl \<le> length tcl'
     \<and> (\<forall>k < length tcl'.
          tc_arguments (tcl' ! k) =
            (if k < length tcl then tc_arguments (tcl ! k) else []) @ arrival_order_args k calls)"
proof (induction calls arbitrary: tcl)
  case Nil
  then show ?case by (simp add: arrival_order_args_def)
next
  case (Cons call calls)
  show ?case
  proof (cases "fr_index call")
    case None
    with Cons.prems have "well_formed_stream (length tcl) calls" by simp
    from Cons.IH [OF this] None show ?thesis
      by (simp add: accumulate_call_def arrival_order_args_def)
  next
    case (Some idx)
    show ?thesis
    proof (cases "idx = int (length tcl)")
      case True
      with Some Cons.prems obtain f n where f: "fr_function call = Some f" "ff_name f = Some n"
        and io: "well_formed_stream (Suc (length tcl)) calls"
        by (auto split: option.splits)
      let ?e = "\<lparr>tc_id = fr_id call, tc_name = n, tc_arguments = fragment_args call\<rparr>"
      have step: "accumulate_call call tcl = Inr (tcl @ [?e])"
        using accumulate_call_new [of call tcl f n] Some True f by simp
      from io have "well_formed_stream (length (tcl @ [?e])) calls" by simp
      from Cons.IH [OF this] obtain tcl' where
        r: "accumulate_calls calls (tcl @ [?e]) = Inr tcl'" and
        l: "length (tcl @ [?e]) \<le> length tcl'" and
        a: "\<forall>k < length tcl'. tc_arguments (tcl' ! k) =
              (if k < length (tcl @ [?e]) then tc_arguments ((tcl @ [?e]) ! k) else [])
                @ arrival_order_args k calls"
        by blast
      have "\<forall>k < length tcl'. tc_arguments (tcl' ! k) =
              (if k < length tcl then tc_arguments (tcl ! k) else [])
                @ arrival_order_args k (call # calls)"
      proof (intro allI impI)
        fix k assume k: "k < length tcl'"
        consider "k < length tcl" | "k = length tcl" | "k > length tcl" by linarith
        then show "tc_arguments (tcl' ! k) =
              (if k < length tcl then tc_arguments (tcl ! k) else [])
                @ arrival_order_args k (call # calls)"
        proof cases
          case 1
          with a k Some True show ?thesis
            by (simp add: arrival_order_args_def nth_append)
        next
          case 2
          with a k Some True show ?thesis
            by (simp add: arrival_order_args_def nth_append)
        next
          case 3
          with a k Some True show ?thesis
            by (simp add: arrival_order_args_def nth_append)
        qed
      qed
      with r l step show ?thesis by simp
    next
      case False
      with Some Cons.prems obtain f where f: "fr_function call = Some f"
        and rng: "0 \<le> idx" "idx < int (length tcl)"
        and io: "well_formed_stream (length tcl) calls"
        by (auto split: option.splits)
      define j where "j = nat idx"
      from rng have j: "idx = int j" "j < length tcl" by (simp_all add: j_def)
      let ?t = "tcl[j := (tcl ! j)\<lparr>tc_arguments := tc_arguments (tcl ! j) @ fragment_args call\<rparr>]"
      have step: "accumulate_call call tcl = Inr ?t"
        using accumulate_call_seen [of call j tcl f] Some j f by simp
      from io have "well_formed_stream (length ?t) calls" by simp
      from Cons.IH [OF this] obtain tcl' where
        r: "accumulate_calls calls ?t = Inr tcl'" and
        l: "length ?t \<le> length tcl'" and
        a: "\<forall>k < length tcl'. tc_arguments (tcl' ! k) =
              (if k < length ?t then tc_arguments (?t ! k) else [])
                @ arrival_order_args k calls"
        by blast
      have "\<forall>k < length tcl'. tc_arguments (tcl' ! k) =
              (if k < length tcl then tc_arguments (tcl ! k) else [])
                @ arrival_order_args k (call # calls)"
      proof (intro allI impI)
        fix k assume k: "k < length tcl'"
        show "tc_arguments (tcl' ! k) =
              (if k < length tcl then tc_arguments (tcl ! k) else [])
                @ arrival_order_args k (call # calls)"
        proof (cases "k = j")
          case True
          with a k j Some show ?thesis
            by (simp add: arrival_order_args_def)
        next
          case False
          with a k j Some show ?thesis
            by (simp add: arrival_order_args_def)
        qed
      qed
      with r l step show ?thesis by simp
    qed
  qed
qed


definition first_fragment :: "nat \<Rightarrow> fragment list \<Rightarrow> fragment option" where
  "first_fragment k calls = find (\<lambda>call. fr_index call = Some (int k)) calls"

definition entry_of :: "fragment \<Rightarrow> string option \<times> string option" where
  "entry_of call =
     (fr_id call, case fr_function call of None \<Rightarrow> None | Some f \<Rightarrow> ff_name f)"

lemma accumulate_calls_heads:
  "well_formed_stream (length tcl) calls \<Longrightarrow> accumulate_calls calls tcl = Inr tcl' \<Longrightarrow>
   (\<forall>k < length tcl'.
      (tc_id (tcl' ! k), Some (tc_name (tcl' ! k))) =
        (if k < length tcl then (tc_id (tcl ! k), Some (tc_name (tcl ! k)))
         else (case first_fragment k calls of None \<Rightarrow> (None, None) | Some call \<Rightarrow> entry_of call)))
   \<and> (\<forall>k. length tcl \<le> k \<longrightarrow> k < length tcl' \<longrightarrow> first_fragment k calls \<noteq> None)"
proof (induction calls arbitrary: tcl)
  case Nil
  then show ?case by (simp add: first_fragment_def)
next
  case (Cons call calls)
  show ?case
  proof (cases "fr_index call")
    case None
    with Cons.prems have "well_formed_stream (length tcl) calls" "accumulate_calls calls tcl = Inr tcl'"
      by (simp_all add: accumulate_call_def)
    from Cons.IH [OF this] None show ?thesis
      by (simp add: first_fragment_def)
  next
    case (Some idx)
    show ?thesis
    proof (cases "idx = int (length tcl)")
      case True
      with Some Cons.prems obtain f n where f: "fr_function call = Some f" "ff_name f = Some n"
        and io: "well_formed_stream (Suc (length tcl)) calls"
        by (auto split: option.splits)
      let ?e = "\<lparr>tc_id = fr_id call, tc_name = n, tc_arguments = fragment_args call\<rparr>"
      have step: "accumulate_call call tcl = Inr (tcl @ [?e])"
        using accumulate_call_new [of call tcl f n] Some True f by simp
      with Cons.prems have r: "accumulate_calls calls (tcl @ [?e]) = Inr tcl'" by simp
      from io have "well_formed_stream (length (tcl @ [?e])) calls" by simp
      from Cons.IH [OF this r] have
        a: "\<forall>k < length tcl'.
              (tc_id (tcl' ! k), Some (tc_name (tcl' ! k))) =
                (if k < length (tcl @ [?e])
                 then (tc_id ((tcl @ [?e]) ! k), Some (tc_name ((tcl @ [?e]) ! k)))
                 else (case first_fragment k calls of None \<Rightarrow> (None, None)
                       | Some call \<Rightarrow> entry_of call))" and
        b: "\<forall>k. length (tcl @ [?e]) \<le> k \<longrightarrow> k < length tcl' \<longrightarrow> first_fragment k calls \<noteq> None"
        by blast+
      have "\<forall>k < length tcl'.
              (tc_id (tcl' ! k), Some (tc_name (tcl' ! k))) =
                (if k < length tcl then (tc_id (tcl ! k), Some (tc_name (tcl ! k)))
                 else (case first_fragment k (call # calls) of None \<Rightarrow> (None, None)
                       | Some call \<Rightarrow> entry_of call))"
      proof (intro allI impI)
        fix k assume k: "k < length tcl'"
        consider "k < length tcl" | "k = length tcl" | "k > length tcl" by linarith
        then show "(tc_id (tcl' ! k), Some (tc_name (tcl' ! k))) =
                (if k < length tcl then (tc_id (tcl ! k), Some (tc_name (tcl ! k)))
                 else (case first_fragment k (call # calls) of None \<Rightarrow> (None, None)
                       | Some call \<Rightarrow> entry_of call))"
        proof cases
          case 1
          with a k show ?thesis by (simp add: nth_append)
        next
          case 2
          with a k Some True f show ?thesis
            by (simp add: nth_append first_fragment_def entry_of_def)
        next
          case 3
          with a k Some True show ?thesis
            by (simp add: nth_append first_fragment_def)
        qed
      qed
      moreover have "\<forall>k. length tcl \<le> k \<longrightarrow> k < length tcl' \<longrightarrow> first_fragment k (call # calls) \<noteq> None"
      proof (intro allI impI)
        fix k assume "length tcl \<le> k" "k < length tcl'"
        then show "first_fragment k (call # calls) \<noteq> None"
          using b Some True by (cases "k = length tcl") (auto simp: first_fragment_def)
      qed
      ultimately show ?thesis by blast
    next
      case False
      with Some Cons.prems obtain f where f: "fr_function call = Some f"
        and rng: "0 \<le> idx" "idx < int (length tcl)"
        and io: "well_formed_stream (length tcl) calls"
        by (auto split: option.splits)
      define j where "j = nat idx"
      from rng have j: "idx = int j" "j < length tcl" by (simp_all add: j_def)
      let ?t = "tcl[j := (tcl ! j)\<lparr>tc_arguments := tc_arguments (tcl ! j) @ fragment_args call\<rparr>]"
      have step: "accumulate_call call tcl = Inr ?t"
        using accumulate_call_seen [of call j tcl f] Some j f by simp
      with Cons.prems have r: "accumulate_calls calls ?t = Inr tcl'" by simp
      from io have "well_formed_stream (length ?t) calls" by simp
      from Cons.IH [OF this r] have
        a: "\<forall>k < length tcl'.
              (tc_id (tcl' ! k), Some (tc_name (tcl' ! k))) =
                (if k < length ?t then (tc_id (?t ! k), Some (tc_name (?t ! k)))
                 else (case first_fragment k calls of None \<Rightarrow> (None, None)
                       | Some call \<Rightarrow> entry_of call))" and
        b: "\<forall>k. length ?t \<le> k \<longrightarrow> k < length tcl' \<longrightarrow> first_fragment k calls \<noteq> None"
        by blast+
      have "\<forall>k < length tcl'.
              (tc_id (tcl' ! k), Some (tc_name (tcl' ! k))) =
                (if k < length tcl then (tc_id (tcl ! k), Some (tc_name (tcl ! k)))
                 else (case first_fragment k (call # calls) of None \<Rightarrow> (None, None)
                       | Some call \<Rightarrow> entry_of call))"
      proof (intro allI impI)
        fix k assume k: "k < length tcl'"
        show "(tc_id (tcl' ! k), Some (tc_name (tcl' ! k))) =
                (if k < length tcl then (tc_id (tcl ! k), Some (tc_name (tcl ! k)))
                 else (case first_fragment k (call # calls) of None \<Rightarrow> (None, None)
                       | Some call \<Rightarrow> entry_of call))"
        proof (cases "k = j")
          case True
          with a k j show ?thesis by simp
        next
          case False
          with a k j Some show ?thesis by (auto simp: first_fragment_def)
        qed
      qed
      moreover have "\<forall>k. length tcl \<le> k \<longrightarrow> k < length tcl' \<longrightarrow> first_fragment k (call # calls) \<noteq> None"
        using b j Some by (auto simp: first_fragment_def)
      ultimately show ?thesis by blast
    qed
  qed
qed

lemma accumulate_calls_covers:
  "well_formed_stream (length tcl) calls \<Longrightarrow> accumulate_calls calls tcl = Inr tcl' \<Longrightarrow>
   length tcl \<le> length tcl'
   \<and> (\<forall>call \<in> set calls. \<forall>idx. fr_index call = Some idx \<longrightarrow>
          0 \<le> idx \<and> idx < int (length tcl'))"
proof (induction calls arbitrary: tcl)
  case Nil
  then show ?case by simp
next
  case (Cons call calls)
  show ?case
  proof (cases "fr_index call")
    case None
    with Cons.prems have "well_formed_stream (length tcl) calls" "accumulate_calls calls tcl = Inr tcl'"
      by (simp_all add: accumulate_call_def)
    from Cons.IH [OF this] None show ?thesis by simp
  next
    case (Some idx)
    show ?thesis
    proof (cases "idx = int (length tcl)")
      case True
      with Some Cons.prems obtain f n where f: "fr_function call = Some f" "ff_name f = Some n"
        and io: "well_formed_stream (Suc (length tcl)) calls"
        by (auto split: option.splits)
      let ?e = "\<lparr>tc_id = fr_id call, tc_name = n, tc_arguments = fragment_args call\<rparr>"
      have step: "accumulate_call call tcl = Inr (tcl @ [?e])"
        using accumulate_call_new [of call tcl f n] Some True f by simp
      with Cons.prems have r: "accumulate_calls calls (tcl @ [?e]) = Inr tcl'" by simp
      from io have "well_formed_stream (length (tcl @ [?e])) calls" by simp
      from Cons.IH [OF this r] Some True show ?thesis by auto
    next
      case False
      with Some Cons.prems obtain f where f: "fr_function call = Some f"
        and rng: "0 \<le> idx" "idx < int (length tcl)"
        and io: "well_formed_stream (length tcl) calls"
        by (auto split: option.splits)
      define j where "j = nat idx"
      from rng have j: "idx = int j" "j < length tcl" by (simp_all add: j_def)
      let ?t = "tcl[j := (tcl ! j)\<lparr>tc_arguments := tc_arguments (tcl ! j) @ fragment_args call\<rparr>]"
      have step: "accumulate_call call tcl = Inr ?t"
        using accumulate_call_seen [of call j tcl f] Some j f by simp
      with Cons.prems have r: "accumulate_calls calls ?t = Inr tcl'" by simp
      from io have "well_formed_stream (length ?t) calls" by simp
      from Cons.IH [OF this r] Some rng show ?thesis by auto
    qed
  qed
qed

text \<open>
  C7 (amended). For every well-formed fragment stream (each fragment that carries an index
  has a \<open>function\<close> object; indices arrive in order, 0 first, each new index the number of
  calls so far, its first fragment naming the function), accumulation succeeds. Every index
  carried by a fragment has an entry, and every entry belongs to an index carried by some
  fragment; the entry of an index has the id and the function name of the first fragment
  carrying it, and its argument buffer is the concatenation, in arrival order, of the
  argument strings of all fragments carrying it. The buffer is raw text: the fragments
  \<open>{\<close>, \<open>"a\<close>, \<open>":1}\<close> of index 0 assemble to \<open>{"a":1}\<close>, also when fragments of another
  call arrive in between.
\<close>

theorem accumulate_in_order_concatenates:
  assumes "well_formed_stream 0 calls"
  shows "\<exists>tool_calls_list.
           accumulate_calls calls [] = Inr tool_calls_list
           \<and> (\<forall>call \<in> set calls. \<forall>idx. fr_index call = Some idx \<longrightarrow>
                  0 \<le> idx \<and> idx < int (length tool_calls_list))
           \<and> (\<forall>k < length tool_calls_list.
                (\<exists>call. first_fragment k calls = Some call
                   \<and> entry_of call = (tc_id (tool_calls_list ! k), Some (tc_name (tool_calls_list ! k))))
                \<and> tc_arguments (tool_calls_list ! k) = arrival_order_args k calls)"
proof -
  from assms have io: "well_formed_stream (length ([] :: tool_call list)) calls" by simp
  from accumulate_calls_in_order [OF io] obtain tcl where
    r: "accumulate_calls calls [] = Inr tcl" and
    a: "\<forall>k < length tcl. tc_arguments (tcl ! k) = arrival_order_args k calls"
    by auto
  from accumulate_calls_covers [OF io r] have
    c: "\<forall>call \<in> set calls. \<forall>idx. fr_index call = Some idx \<longrightarrow> 0 \<le> idx \<and> idx < int (length tcl)"
    by simp
  from accumulate_calls_heads [OF io r] have
    h: "\<forall>k < length tcl. (tc_id (tcl ! k), Some (tc_name (tcl ! k))) =
          (case first_fragment k calls of None \<Rightarrow> (None, None) | Some call \<Rightarrow> entry_of call)"
    and n: "\<forall>k < length tcl. first_fragment k calls \<noteq> None"
    by auto
  have "\<forall>k < length tcl.
          (\<exists>call. first_fragment k calls = Some call
             \<and> entry_of call = (tc_id (tcl ! k), Some (tc_name (tcl ! k))))
          \<and> tc_arguments (tcl ! k) = arrival_order_args k calls"
  proof (intro allI impI)
    fix k assume k: "k < length tcl"
    with n obtain call where c: "first_fragment k calls = Some call" by auto
    with h k have "entry_of call = (tc_id (tcl ! k), Some (tc_name (tcl ! k)))" by simp
    with c a k show "(\<exists>call. first_fragment k calls = Some call
             \<and> entry_of call = (tc_id (tcl ! k), Some (tc_name (tcl ! k))))
          \<and> tc_arguments (tcl ! k) = arrival_order_args k calls" by simp
  qed
  with r c show ?thesis by blast
qed

definition example_fragments :: "fragment list" where
  "example_fragments =
     [\<lparr>fr_index = Some 0, fr_id = Some ''call_1'',
       fr_function = Some \<lparr>ff_name = Some ''f'', ff_arguments = Some ''{''\<rparr>\<rparr>,
      \<lparr>fr_index = Some 0, fr_id = None,
       fr_function = Some \<lparr>ff_name = None, ff_arguments = Some [CHR 0x22, CHR ''a'']\<rparr>\<rparr>,
      \<lparr>fr_index = Some 1, fr_id = Some ''call_2'',
       fr_function = Some \<lparr>ff_name = Some ''g'', ff_arguments = None\<rparr>\<rparr>,
      \<lparr>fr_index = Some 0, fr_id = None,
       fr_function = Some \<lparr>ff_name = None, ff_arguments = Some ([CHR 0x22] @ '':1}'')\<rparr>\<rparr>,
      \<lparr>fr_index = Some 1, fr_id = None,
       fr_function = Some \<lparr>ff_name = None, ff_arguments = Some ''{}''\<rparr>\<rparr>]"

theorem accumulate_in_order_concatenates_witness:
  "well_formed_stream 0 example_fragments
   \<and> accumulate_calls example_fragments [] =
       Inr [\<lparr>tc_id = Some ''call_1'', tc_name = ''f'',
             tc_arguments = ''{'' @ [CHR 0x22] @ ''a'' @ [CHR 0x22] @ '':1}''\<rparr>,
            \<lparr>tc_id = Some ''call_2'', tc_name = ''g'', tc_arguments = ''{}''\<rparr>]
   \<and> arrival_order_args 0 example_fragments = ''{'' @ [CHR 0x22] @ ''a'' @ [CHR 0x22] @ '':1}''
   \<and> arrival_order_args 1 example_fragments = ''{}''"
proof -
  have io: "well_formed_stream 0 example_fragments"
    by (simp add: example_fragments_def)
  have ev: "accumulate_calls example_fragments [] =
       Inr [\<lparr>tc_id = Some ''call_1'', tc_name = ''f'',
             tc_arguments = ''{'' @ [CHR 0x22] @ ''a'' @ [CHR 0x22] @ '':1}''\<rparr>,
            \<lparr>tc_id = Some ''call_2'', tc_name = ''g'', tc_arguments = ''{}''\<rparr>]"
    by (simp add: example_fragments_def accumulate_call_def)
  from accumulate_in_order_concatenates [OF io] ev
  have "\<forall>k<2. tc_arguments ([\<lparr>tc_id = Some ''call_1'', tc_name = ''f'',
             tc_arguments = ''{'' @ [CHR 0x22] @ ''a'' @ [CHR 0x22] @ '':1}''\<rparr>,
            \<lparr>tc_id = Some ''call_2'', tc_name = ''g'', tc_arguments = ''{}''\<rparr>] ! k)
           = arrival_order_args k example_fragments"
    by auto
  from this [rule_format, of 0] this [rule_format, of 1]
  have "arrival_order_args 0 example_fragments = ''{'' @ [CHR 0x22] @ ''a'' @ [CHR 0x22] @ '':1}''"
    "arrival_order_args 1 example_fragments = ''{}''"
    by simp_all
  with io ev show ?thesis by simp
qed

text \<open>
  C7 as stated fails when an index is not the position of its entry: a first fragment of
  index 1 becomes entry 0, and the next fragment of index 1 is again taken as new, which
  needs a function name it does not carry.
\<close>

definition skipped_index_fragments :: "fragment list" where
  "skipped_index_fragments =
     [\<lparr>fr_index = Some 1, fr_id = Some ''call_1'',
       fr_function = Some \<lparr>ff_name = Some ''f'', ff_arguments = Some ''{''\<rparr>\<rparr>,
      \<lparr>fr_index = Some 1, fr_id = None,
       fr_function = Some \<lparr>ff_name = None, ff_arguments = Some ''}''\<rparr>\<rparr>]"

theorem accumulate_seen_index_counterexample:
  "accumulate_calls skipped_index_fragments [] = Inl (key_error ''name'')
   \<and> accumulate_calls skipped_index_fragments [] \<noteq>
       Inr [\<lparr>tc_id = Some ''call_1'', tc_name = ''f'', tc_arguments = ''{}''\<rparr>]"
  by (simp add: skipped_index_fragments_def accumulate_call_def)

section \<open>The conversation loop (Agent_Base_.py, conversation_with_tool)\<close>

subsection \<open>What the loop takes from outside\<close>

text \<open>
  A parsed document as BeautifulSoup shows it: tags with children, and strings.
  \<open>child.text\<close> is the concatenation of the strings below the child.
\<close>

datatype xnode = Tag string "xnode list" | NavigableString string

fun node_text :: "xnode \<Rightarrow> string" where
  "node_text (NavigableString s) = s"
| "node_text (Tag n children) = concat (map node_text children)"

text \<open>
  The libraries the loop calls are parameters: \<open>soup_find block\<close> is
  \<open>BeautifulSoup(block, "xml").find()\<close>, the name and the children of the first tag or
  \<open>None\<close>; \<open>json_loads\<close> is \<open>json.loads\<close>, with the text of the \<open>JSONDecodeError\<close>
  on the left; \<open>not_a_mapping v\<close> is the text of the \<open>TypeError\<close> that \<open>f(**v)\<close>
  raises for a value that is not a dict.
\<close>

record env =
  soup_find :: "string \<Rightarrow> (string \<times> xnode list) option"
  json_loads :: "string \<Rightarrow> string + pyval"
  not_a_mapping :: "pyval \<Rightarrow> string"

text \<open>The usage summary; the three counts are kept as the text the f-string prints.\<close>

record usage =
  prompt_tokens :: string
  completion_tokens :: string
  total_tokens :: string

text \<open>
  One parsed \<open>data:\<close> line of a stream (lines that are skipped and everything after
  \<open>[DONE]\<close> are left out): the call fragments, the content and the usage of the chunk.
\<close>

record chunk =
  ch_tool_calls :: "fragment list"
  ch_content :: "string option"
  ch_usage :: "usage option"

record whole_message =
  wm_content :: "string option"
  wm_tool_calls :: "tool_call list"
  wm_usage :: "usage option"

text \<open>
  The HTTP response: its stream of chunks, its body read by \<open>rsp.json()\<close> (\<open>None\<close> when
  reading it or finding \<open>choices[0].message\<close> raises) and its raw text.
\<close>

record response =
  rsp_chunks :: "chunk list"
  rsp_json :: "whole_message option"
  rsp_text :: string

definition usage_text_1 :: string where
  "usage_text_1 = [CHR 0x0A, CHR 0xE6, CHR 0x9C, CHR 0xAC, CHR 0xE6, CHR 0xAC, CHR 0xA1, CHR 0xE8,
     CHR 0xAF, CHR 0xB7, CHR 0xE6, CHR 0xB1, CHR 0x82, CHR 0xE7, CHR 0x94, CHR 0xA8,
     CHR 0xE9, CHR 0x87, CHR 0x8F, CHR 0xEF, CHR 0xBC, CHR 0x9A, CHR 0xE6, CHR 0x8F,
     CHR 0x90, CHR 0xE7, CHR 0xA4, CHR 0xBA, CHR 0x20]"

definition usage_text_2 :: string where
  "usage_text_2 = [CHR 0x20, CHR 0x74, CHR 0x6F, CHR 0x6B, CHR 0x65, CHR 0x6E, CHR 0x73, CHR 0xEF,
     CHR 0xBC, CHR 0x8C, CHR 0xE7, CHR 0x94, CHR 0x9F, CHR 0xE6, CHR 0x88, CHR 0x90,
     CHR 0x20]"

definition usage_text_3 :: string where
  "usage_text_3 = [CHR 0x20, CHR 0x74, CHR 0x6F, CHR 0x6B, CHR 0x65, CHR 0x6E, CHR 0x73, CHR 0xEF,
     CHR 0xBC, CHR 0x8C, CHR 0xE6, CHR 0x80, CHR 0xBB, CHR 0xE8, CHR 0xAE, CHR 0xA1,
     CHR 0x20]"

definition usage_text_4 :: string where
  "usage_text_4 = [CHR 0x20, CHR 0x74, CHR 0x6F, CHR 0x6B, CHR 0x65, CHR 0x6E, CHR 0x73, CHR 0xE3,
     CHR 0x80, CHR 0x82]"

definition fc_not_found_prefix :: string where
  "fc_not_found_prefix = [CHR 0xE6, CHR 0x89, CHR 0xBE, CHR 0xE4, CHR 0xB8, CHR 0x8D, CHR 0xE5, CHR 0x88,
     CHR 0xB0, CHR 0xE5, CHR 0xB7, CHR 0xA5, CHR 0xE5, CHR 0x85, CHR 0xB7, CHR 0x20,
     CHR 0x27]"

definition fc_exec_prefix :: string where
  "fc_exec_prefix = [CHR 0xE6, CHR 0x89, CHR 0xA7, CHR 0xE8, CHR 0xA1, CHR 0x8C, CHR 0xE5, CHR 0xB7,
     CHR 0xA5, CHR 0xE5, CHR 0x85, CHR 0xB7, CHR 0x20]"

definition fc_exec_mid :: string where
  "fc_exec_mid = [CHR 0x20, CHR 0xE6, CHR 0x97, CHR 0xB6, CHR 0xE5, CHR 0x87, CHR 0xBA, CHR 0xE9,
     CHR 0x94, CHR 0x99, CHR 0x3A, CHR 0x20]"

definition xml_error_prefix :: string where
  "xml_error_prefix = [CHR 0xE5, CHR 0xB7, CHR 0xA5, CHR 0xE5, CHR 0x85, CHR 0xB7, CHR 0xE9, CHR 0x94,
     CHR 0x99, CHR 0xE8, CHR 0xAF, CHR 0xAF, CHR 0xEF, CHR 0xBC, CHR 0x9A, CHR 0xE6,
     CHR 0x89, CHR 0xBE, CHR 0xE4, CHR 0xB8, CHR 0x8D, CHR 0xE5, CHR 0x88, CHR 0xB0,
     CHR 0xE5, CHR 0xB7, CHR 0xA5, CHR 0xE5, CHR 0x85, CHR 0xB7, CHR 0x20, CHR 0x27]"

definition xml_error_suffix :: string where
  "xml_error_suffix = [CHR 0x27, CHR 0xE3, CHR 0x80, CHR 0x82]"

definition xml_error_avail :: string where
  "xml_error_avail = [CHR 0x20, CHR 0xE4, CHR 0xBD, CHR 0xA0, CHR 0xE5, CHR 0x8F, CHR 0xAF, CHR 0xE4,
     CHR 0xBB, CHR 0xA5, CHR 0xE4, CHR 0xBD, CHR 0xBF, CHR 0xE7, CHR 0x94, CHR 0xA8,
     CHR 0xE4, CHR 0xBB, CHR 0xA5, CHR 0xE4, CHR 0xB8, CHR 0x8B, CHR 0xE5, CHR 0xB7,
     CHR 0xA5, CHR 0xE5, CHR 0x85, CHR 0xB7, CHR 0xEF, CHR 0xBC, CHR 0x9A]"

definition empty_xml_text :: string where
  "empty_xml_text = [CHR 0xE7, CHR 0xA9, CHR 0xBA, CHR 0x20, CHR 0x58, CHR 0x4D, CHR 0x4C]"

definition exit_msg :: string where
  "exit_msg = [CHR 0x0A, CHR 0x5B, CHR 0xE7, CHR 0xB3, CHR 0xBB, CHR 0xE7, CHR 0xBB, CHR 0x9F,
     CHR 0x5D, CHR 0x20, CHR 0x41, CHR 0x49, CHR 0x20, CHR 0xE5, CHR 0xB7, CHR 0xB2,
     CHR 0xE6, CHR 0xA0, CHR 0x87, CHR 0xE8, CHR 0xAE, CHR 0xB0, CHR 0xE4, CHR 0xBB,
     CHR 0xBB, CHR 0xE5, CHR 0x8A, CHR 0xA1, CHR 0xE5, CHR 0xAE, CHR 0x8C, CHR 0xE6,
     CHR 0x88, CHR 0x90, CHR 0xEF, CHR 0xBC, CHR 0x8C, CHR 0xE7, CHR 0xA8, CHR 0x8B,
     CHR 0xE5, CHR 0xBA, CHR 0x8F, CHR 0xE9, CHR 0x80, CHR 0x80, CHR 0xE5, CHR 0x87,
     CHR 0xBA, CHR 0xE3, CHR 0x80, CHR 0x82]"

definition usage_text :: "usage \<Rightarrow> string" where
  "usage_text u = usage_text_1 @ prompt_tokens u @ usage_text_2 @ completion_tokens u
     @ usage_text_3 @ total_tokens u @ usage_text_4"

subsection \<open>pack and out\<close>

datatype pack_content =
    TaskContent
  | ToolContent "string option" "(string \<times> pyval) list option"
  | MessageContent "string option" bool

definition pack ::
  "string option \<Rightarrow> bool \<Rightarrow> string option \<Rightarrow> (string \<times> pyval) list option \<Rightarrow> bool \<Rightarrow> bool
     \<Rightarrow> pack_content" where
  "pack message tool_model tool_name tool_parameter finish_task other =
     (if finish_task then TaskContent
      else if tool_model then ToolContent tool_name tool_parameter
      else MessageContent message other)"

fun out :: "pack_content \<Rightarrow> out_event" where
  "out TaskContent = PrintNewline"
| "out (ToolContent tool_name tool_parameter) =
     (case tool_name of
        None \<Rightarrow> PrintMessage None
      | Some n \<Rightarrow> if n = [] then PrintMessage None else PrintToolCall n tool_parameter)"
| "out (MessageContent message other) = PrintMessage message"

definition emit :: "out_event list \<Rightarrow> 'w agent_state \<Rightarrow> 'w agent_state" where
  "emit events st = st\<lparr>out_log := out_log st @ events\<rparr>"

definition fc_enabled :: "'w agent \<Rightarrow> bool" where
  "fc_enabled ag = (fc_model ag = Some True)"

subsection \<open>Sending\<close>

definition append_user_message ::
  "string option \<Rightarrow> string list \<Rightarrow> 'w agent_state \<Rightarrow> 'w agent_state" where
  "append_user_message messages images st =
     (case messages of
        None \<Rightarrow> st
      | Some m \<Rightarrow>
          if m = [] then st
          else if images \<noteq> [] then
            st\<lparr>history := history st @
              [Msg User (Parts (TextPart m #
                 map (\<lambda>img. if prefix ''http'' img then ImageUrl img
                             else ImageUrl (''data:image/png;base64,'' @ img)) images))]\<rparr>
          else st\<lparr>history := history st @ [Msg User (Text m)]\<rparr>)"

definition send :: "'w tool \<Rightarrow> 'w agent \<Rightarrow> 'w agent_state \<Rightarrow> 'w agent_state" where
  "send reg ag st =
     (let tools_schema =
            (if fc_enabled ag
             then Some (get_all_tools_schema reg (ag_uuid ag)
                    @ filter (\<lambda>n. methods ag n \<noteq> None) (map fst builtin_tools))
             else None)
      in st\<lparr>sent := sent st @ [\<lparr>rq_messages = history st, rq_tools = tools_schema\<rparr>]\<rparr>)"

subsection \<open>Receiving\<close>

fun receive_stream ::
  "bool \<Rightarrow> chunk list \<Rightarrow> string \<Rightarrow> tool_call list \<Rightarrow> 'w agent_state
     \<Rightarrow> 'w agent_state \<times> (exn + string \<times> tool_call list)" where
  "receive_stream fc [] full_content tool_calls_list st = (st, Inr (full_content, tool_calls_list))"
| "receive_stream fc (ch # chs) full_content tool_calls_list st =
     (if fc \<and> ch_tool_calls ch \<noteq> [] then
        (case accumulate_calls (ch_tool_calls ch) tool_calls_list of
           Inl e \<Rightarrow> (st, Inl e)
         | Inr tool_calls_list' \<Rightarrow> receive_stream fc chs full_content tool_calls_list' st)
      else
        (let content = (case ch_content ch of None \<Rightarrow> [] | Some c \<Rightarrow> c);
             st1 = (if content \<noteq> []
                    then emit [out (pack (Some content) False None None False False)] st else st);
             st2 = (case ch_usage ch of
                      None \<Rightarrow> st1
                    | Some u \<Rightarrow>
                        emit [out (pack None False None None True False),
                              out (pack (Some (usage_text u)) False None None False True)] st1)
         in receive_stream fc chs (full_content @ content) tool_calls_list st2))"

definition receive_whole ::
  "bool \<Rightarrow> response \<Rightarrow> 'w agent_state
     \<Rightarrow> 'w agent_state \<times> (exn + string option \<times> tool_call list)" where
  "receive_whole fc rsp st =
     (case rsp_json rsp of
        None \<Rightarrow> (st, Inr (Some (rsp_text rsp), []))
      | Some message \<Rightarrow>
          (let full_content = wm_content message;
               tool_calls_list = (if fc then wm_tool_calls message else []);
               st1 = (case full_content of
                        None \<Rightarrow> st
                      | Some c \<Rightarrow>
                          if c \<noteq> [] then emit [out (pack (Some c) False None None False False)] st
                          else st);
               st2 = (case wm_usage message of
                        None \<Rightarrow> st1
                      | Some u \<Rightarrow>
                          emit [out (pack None False None None True False),
                                out (pack (Some (usage_text u)) False None None False True)] st1)
           in (st2, Inr (full_content, tool_calls_list))))"

definition receive ::
  "'w agent \<Rightarrow> response \<Rightarrow> 'w agent_state
     \<Rightarrow> 'w agent_state \<times> (exn + string option \<times> tool_call list)" where
  "receive ag rsp st =
     (if stream ag then
        (case receive_stream (fc_enabled ag) (rsp_chunks rsp) [] [] st of
           (st', Inl e) \<Rightarrow> (st', Inl e)
         | (st', Inr (full_content, tool_calls_list)) \<Rightarrow>
             (st', Inr (Some full_content, tool_calls_list)))
      else receive_whole (fc_enabled ag) rsp st)"

subsection \<open>Finding the tool\<close>

text \<open>
  Lines 329 to 338 and 396 to 411: the registry when the agent is permitted, else a
  callable attribute of the agent of that name, else nothing.
\<close>

definition resolve_tool :: "'w tool \<Rightarrow> 'w agent \<Rightarrow> string \<Rightarrow> 'w callable option" where
  "resolve_tool reg ag tool_name =
     (let tool_func =
            (if check_permission reg (ag_uuid ag) tool_name
             then (case get_tool_info reg tool_name of
                     None \<Rightarrow> None
                   | Some tool_info \<Rightarrow> Some (ti_function tool_info))
             else None)
      in case tool_func of None \<Rightarrow> methods ag tool_name | Some f \<Rightarrow> Some f)"

definition spread :: "(string \<times> pyval) list \<Rightarrow> call_args" where
  "spread kwargs = (if kwargs = [] then NoArgs else Kwargs kwargs)"

subsection \<open>Dispatch on the native path (lines 313 to 377)\<close>

datatype fc_result = FcError string | FcResult "string option" string pyval

definition fc_error_msg :: "string \<Rightarrow> string \<Rightarrow> string" where
  "fc_error_msg tool_name e_str = fc_exec_prefix @ tool_name @ fc_exec_mid @ e_str"

text \<open>
  The body of the \<open>try\<close> (lines 348 to 356): the arguments are parsed here, then the call
  is announced and made. The result is what the body returns or what it raises.
\<close>

definition fc_try ::
  "env \<Rightarrow> 'w callable \<Rightarrow> tool_call \<Rightarrow> 'w agent_state \<Rightarrow> 'w agent_state \<times> (exn + pyval)" where
  "fc_try E tool_func tool_call st =
     (case json_loads E (tc_arguments tool_call) of
        Inl msg \<Rightarrow> (st, Inl (Exn JSONDecodeError msg))
      | Inr args \<Rightarrow>
          (let st1 = emit [out (pack None False (Some (tc_name tool_call)) None False False)] st
           in case args of
                PDict kwargs \<Rightarrow>
                  (case invoke tool_func (spread kwargs) (world st1) of
                     (r, w') \<Rightarrow> (st1\<lparr>world := w'\<rparr>, r))
              | _ \<Rightarrow> (st1, Inl (Exn TypeError (not_a_mapping E args)))))"

definition fc_call ::
  "env \<Rightarrow> 'w tool \<Rightarrow> 'w agent \<Rightarrow> tool_call \<Rightarrow> fc_result list \<Rightarrow> 'w agent_state
     \<Rightarrow> 'w agent_state \<times> (exn + fc_result list)" where
  "fc_call E reg ag tool_call tool_results st =
     (let tool_name = tc_name tool_call; tool_id = tc_id tool_call
      in case resolve_tool reg ag tool_name of
           None \<Rightarrow>
             (st, Inr (tool_results @ [FcError (fc_not_found_prefix @ tool_name @ [CHR 0x27])]))
         | Some tool_func \<Rightarrow>
             (case fc_try E tool_func tool_call st of
                (st', Inr result) \<Rightarrow>
                  (st', Inr (tool_results @ [FcResult tool_id tool_name result]))
              | (st', Inl e) \<Rightarrow>
                  if is_Exception e
                  then (st', Inr (tool_results
                          @ [FcResult tool_id tool_name (PStr (fc_error_msg tool_name (exn_str e)))]))
                  else (st', Inl e)))"

fun fc_calls ::
  "env \<Rightarrow> 'w tool \<Rightarrow> 'w agent \<Rightarrow> tool_call list \<Rightarrow> fc_result list \<Rightarrow> 'w agent_state
     \<Rightarrow> 'w agent_state \<times> (exn + fc_result list)" where
  "fc_calls E reg ag [] tool_results st = (st, Inr tool_results)"
| "fc_calls E reg ag (tool_call # rest) tool_results st =
     (case fc_call E reg ag tool_call tool_results st of
        (st', Inl e) \<Rightarrow> (st', Inl e)
      | (st', Inr tool_results') \<Rightarrow> fc_calls E reg ag rest tool_results' st')"

text \<open>
  Lines 367 to 373: \<open>result['tool_call_id']\<close> of an error entry raises \<open>KeyError\<close>; the
  messages appended before it stay.
\<close>

fun append_tool_responses ::
  "fc_result list \<Rightarrow> 'w agent_state \<Rightarrow> 'w agent_state \<times> (exn + unit)" where
  "append_tool_responses [] st = (st, Inr ())"
| "append_tool_responses (FcError msg # rest) st = (st, Inl (key_error ''tool_call_id''))"
| "append_tool_responses (FcResult tool_id tool_name result # rest) st =
     append_tool_responses rest (st\<lparr>history := history st @ [ToolMsg tool_id tool_name result]\<rparr>)"

subsection \<open>Dispatch on the inline-tag path (lines 385 to 459)\<close>

definition xml_params :: "xnode list \<Rightarrow> (string \<times> string) list" where
  "xml_params children =
     fold (\<lambda>child params.
             case child of
               Tag n cs \<Rightarrow> if n = [] then params else AList.update n (node_text child) params
             | NavigableString s \<Rightarrow> params)
          children []"

definition param_count :: "'w callable \<Rightarrow> nat" where
  "param_count tool_func =
     length (filter (\<lambda>p. \<not> p_has_default p \<and> p_kind p \<noteq> VAR_POSITIONAL \<and> p_kind p \<noteq> VAR_KEYWORD)
       (signature tool_func))"

definition has_kwargs :: "'w callable \<Rightarrow> bool" where
  "has_kwargs tool_func = list_ex (\<lambda>p. p_kind p = VAR_KEYWORD) (signature tool_func)"

definition as_kwargs :: "(string \<times> string) list \<Rightarrow> (string \<times> pyval) list" where
  "as_kwargs params = map (\<lambda>(k, v). (k, PStr v)) params"

text \<open>Lines 445 to 456: the calling convention chosen from the signature.\<close>

definition call_tool ::
  "'w callable \<Rightarrow> string \<Rightarrow> (string \<times> string) list \<Rightarrow> 'w \<Rightarrow> (exn + pyval) \<times> 'w" where
  "call_tool tool_func block params w =
     (if has_kwargs tool_func \<or> param_count tool_func = 0 then
        invoke tool_func (spread (as_kwargs params)) w
      else if param_count tool_func = 1 \<and> length params = 1 then
        invoke tool_func (Positional (PStr (snd (hd params)))) w
      else
        (case invoke tool_func (spread (as_kwargs params)) w of
           (Inl e, w') \<Rightarrow>
             if is_TypeError e then invoke tool_func (Positional (PStr block)) w' else (Inl e, w')
         | (Inr result, w') \<Rightarrow> (Inr result, w')))"

fun join :: "string \<Rightarrow> string list \<Rightarrow> string" where
  "join sep [] = []"
| "join sep [x] = x"
| "join sep (x # y # ys) = x @ sep @ join sep (y # ys)"

text \<open>
  Modelled from the spec: \<open>self._get_all_available_tools()\<close>, which line 415 calls and none of
  the source files at hand defines. The specification has the dispatch failure carry ``the
  list of tools currently visible to the agent'', and its registry contract gives the tools
  visible to an agent as those it is permitted to use, in registration order: the keys of
  \<open>get_all_tools_info\<close> of agent_tool.py.
\<close>

definition get_all_available_tools :: "'w tool \<Rightarrow> 'w agent \<Rightarrow> string list" where
  "get_all_available_tools reg ag = map fst (get_all_tools_info reg (ag_uuid ag))"

definition tool_error_text :: "'w tool \<Rightarrow> 'w agent \<Rightarrow> string \<Rightarrow> string" where
  "tool_error_text reg ag tool_name =
     (let available_tools = get_all_available_tools reg ag in
      xml_error_prefix @ tool_name @ xml_error_suffix
        @ (if available_tools \<noteq> [] then xml_error_avail @ join '', '' available_tools
           else []))"

definition xml_block ::
  "env \<Rightarrow> 'w tool \<Rightarrow> 'w agent \<Rightarrow> string \<Rightarrow> pyval list \<times> string list \<Rightarrow> 'w agent_state
     \<Rightarrow> 'w agent_state \<times> (exn + pyval list \<times> string list)" where
  "xml_block E reg ag block acc st =
     (case acc of (tool_results, tool_names) \<Rightarrow>
      case soup_find E block of
        None \<Rightarrow> (st, Inl (Exn ValueError empty_xml_text))
      | Some (tool_name, children) \<Rightarrow>
          (case resolve_tool reg ag tool_name of
             None \<Rightarrow>
               (let tool_error = tool_error_text reg ag tool_name
                in (st\<lparr>history := history st @ [Msg System (Text tool_error)]\<rparr>,
                    Inr (tool_results @ [PDict [(''error'', PStr tool_error)]], tool_names)))
           | Some tool_func \<Rightarrow>
               (let params = xml_params children;
                    st1 = emit [PrintBlock block,
                                out (pack None False (Some tool_name) (Some (as_kwargs params))
                                       False False)] st
                in case call_tool tool_func block params (world st1) of
                     (Inl e, w') \<Rightarrow> (st1\<lparr>world := w'\<rparr>, Inl e)
                   | (Inr result, w') \<Rightarrow>
                       (st1\<lparr>world := w'\<rparr>,
                        Inr (tool_results @ [result], tool_names @ [tool_name])))))"

fun xml_blocks_loop ::
  "env \<Rightarrow> 'w tool \<Rightarrow> 'w agent \<Rightarrow> string list \<Rightarrow> pyval list \<times> string list \<Rightarrow> 'w agent_state
     \<Rightarrow> 'w agent_state \<times> (exn + pyval list \<times> string list)" where
  "xml_blocks_loop E reg ag [] acc st = (st, Inr acc)"
| "xml_blocks_loop E reg ag (block # blocks) acc st =
     (case xml_block E reg ag block acc st of
        (st', Inl e) \<Rightarrow> (st', Inl e)
      | (st', Inr acc') \<Rightarrow> xml_blocks_loop E reg ag blocks acc' st')"

subsection \<open>The end of a turn (lines 461 to 483) and the loop\<close>

datatype returned = ReturnedContent string | ReturnedMessage message

datatype turn_result =
    Continue
  | Return returned
  | Raise exn

definition hard_stop_marker :: string where
  "hard_stop_marker = ''<attempt_completion>''"

text \<open>
  In the loop at lines 470 to 475 \<open>tool_names[n]\<close> raises once \<open>n\<close> reaches the number of
  names, and the bare \<open>except\<close> leaves the loop: the results are paired with the names as
  far as both go.
\<close>

definition finish_turn ::
  "bool \<Rightarrow> string \<Rightarrow> pyval list \<times> string list \<Rightarrow> 'w agent_state
     \<Rightarrow> 'w agent_state \<times> turn_result" where
  "finish_turn tool full_content acc st =
     (case acc of (tool_results, tool_names) \<Rightarrow>
      if sublist hard_stop_marker full_content then
        (emit [out (pack (Some exit_msg) False (Some ''attempt_completion'') None False False)] st,
         Raise sys_exit_0)
      else if tool_results \<noteq> [] then
        (st\<lparr>history := history st
              @ map (\<lambda>(n, i). Msg System (ResultsOf n i)) (zip tool_names tool_results)\<rparr>,
         Continue)
      else if tool then
        (if history st = [] then (st, Raise (Exn IndexError ''list index out of range''))
         else (st, Return (ReturnedMessage (last (history st)))))
      else (st, Return (ReturnedContent full_content)))"

definition fc_turn ::
  "env \<Rightarrow> 'w tool \<Rightarrow> 'w agent \<Rightarrow> tool_call list \<Rightarrow> 'w agent_state
     \<Rightarrow> 'w agent_state \<times> turn_result" where
  "fc_turn E reg ag tool_calls_list st =
     (let st1 = st\<lparr>history := history st @ [AssistantToolCalls tool_calls_list]\<rparr>
      in case fc_calls E reg ag tool_calls_list [] st1 of
           (st2, Inl e) \<Rightarrow> (st2, Raise e)
         | (st2, Inr tool_results) \<Rightarrow>
             (case append_tool_responses tool_results st2 of
                (st3, Inl e) \<Rightarrow> (st3, Raise e)
              | (st3, Inr u) \<Rightarrow> (st3, Continue)))"

definition xml_turn ::
  "env \<Rightarrow> 'w tool \<Rightarrow> 'w agent \<Rightarrow> bool \<Rightarrow> string option \<Rightarrow> 'w agent_state
     \<Rightarrow> 'w agent_state \<times> turn_result" where
  "xml_turn E reg ag tool full_content st =
     (case full_content of
        None \<Rightarrow> (st, Raise (Exn TypeError ''expected string or bytes-like object''))
      | Some text \<Rightarrow>
          (case xml_blocks_loop E reg ag (xml_blocks text) ([], []) st of
             (st1, Inl e) \<Rightarrow> (st1, Raise e)
           | (st1, Inr acc) \<Rightarrow> finish_turn tool text acc st1))"

text \<open>One turn after the request has gone out: receive, then one of the two paths.\<close>

definition turn ::
  "env \<Rightarrow> 'w tool \<Rightarrow> 'w agent \<Rightarrow> bool \<Rightarrow> response \<Rightarrow> 'w agent_state
     \<Rightarrow> 'w agent_state \<times> turn_result" where
  "turn E reg ag tool rsp st =
     (case receive ag rsp st of
        (st1, Inl e) \<Rightarrow> (st1, Raise e)
      | (st1, Inr (full_content, tool_calls_list)) \<Rightarrow>
          if fc_enabled ag \<and> tool_calls_list \<noteq> []
          then fc_turn E reg ag tool_calls_list st1
          else xml_turn E reg ag tool full_content st1)"

text \<open>
  The recursion \<open>return self.conversation_with_tool(tool=True)\<close>. The transport is the list
  of the responses it will give; each request takes the next one. When the list is used
  up the last request is out and unanswered.
\<close>

datatype outcome = Returned returned | Raised exn | AwaitingResponse

fun conversation_loop ::
  "env \<Rightarrow> 'w tool \<Rightarrow> 'w agent \<Rightarrow> bool \<Rightarrow> response list \<Rightarrow> 'w agent_state
     \<Rightarrow> 'w agent_state \<times> outcome" where
  "conversation_loop E reg ag tool [] st = (send reg ag st, AwaitingResponse)"
| "conversation_loop E reg ag tool (rsp # rsps) st =
     (case turn E reg ag tool rsp (send reg ag st) of
        (st', Continue) \<Rightarrow> conversation_loop E reg ag True rsps st'
      | (st', Return r) \<Rightarrow> (st', Returned r)
      | (st', Raise e) \<Rightarrow> (st', Raised e))"

definition conversation_with_tool ::
  "env \<Rightarrow> 'w tool \<Rightarrow> 'w agent \<Rightarrow> string option \<Rightarrow> bool \<Rightarrow> string list \<Rightarrow> response list
     \<Rightarrow> 'w agent_state \<Rightarrow> 'w agent_state \<times> outcome" where
  "conversation_with_tool E reg ag messages tool images rsps st =
     conversation_loop E reg ag tool rsps (append_user_message messages images st)"

section \<open>Calling conventions on the inline-tag path\<close>

text \<open>
  Two callables whose world is the log of the calls made: \<open>def echo(text)\<close> returns its
  argument; \<open>def tagged(x, **kw)\<close> returns \<open>x\<close>. Python binds the arguments before the body
  runs and raises \<open>TypeError\<close> when they do not fit.
\<close>

definition echo :: "call_args list callable" where
  "echo =
     \<lparr>signature = [\<lparr>p_name = ''text'', p_kind = POSITIONAL_OR_KEYWORD, p_has_default = False\<rparr>],
      invoke = (\<lambda>args w.
        (case args of
           Positional v \<Rightarrow> Inr v
         | Kwargs kwargs \<Rightarrow>
             (case kwargs of
                [(k, v)] \<Rightarrow> if k = ''text'' then Inr v
                            else Inl (Exn TypeError ''echo() got an unexpected keyword argument'')
              | _ \<Rightarrow> Inl (Exn TypeError ''echo() got an unexpected keyword argument''))
         | NoArgs \<Rightarrow> Inl (Exn TypeError ''echo() missing 1 required positional argument''),
         w @ [args]))\<rparr>"

definition tagged :: "call_args list callable" where
  "tagged =
     \<lparr>signature = [\<lparr>p_name = ''x'', p_kind = POSITIONAL_OR_KEYWORD, p_has_default = False\<rparr>,
                   \<lparr>p_name = ''kw'', p_kind = VAR_KEYWORD, p_has_default = False\<rparr>],
      invoke = (\<lambda>args w.
        (case args of
           Positional v \<Rightarrow> Inr v
         | Kwargs kwargs \<Rightarrow>
             (case map_of kwargs ''x'' of
                Some v \<Rightarrow> Inr v
              | None \<Rightarrow> Inl (Exn TypeError ''tagged() missing 1 required positional argument''))
         | NoArgs \<Rightarrow> Inl (Exn TypeError ''tagged() missing 1 required positional argument''),
         w @ [args]))\<rparr>"

text \<open>
  C6 (amended). When the callable found for a block has exactly one required parameter and
  no \<open>**kwargs\<close> parameter, and the block has exactly one parameter, the callable is
  applied to that parameter's text positionally, whatever the child tag is called; the
  block's result and the world are those of that call.
\<close>

theorem single_parameter_positional:
  assumes "param_count tool_func = 1" and "\<not> has_kwargs tool_func"
    and "soup_find E block = Some (tool_name, children)"
    and "resolve_tool reg ag tool_name = Some tool_func"
    and "xml_params children = [(child_name, child_text)]"
  shows "call_tool tool_func block (xml_params children) w
           = invoke tool_func (Positional (PStr child_text)) w
         \<and> xml_block E reg ag block (tool_results, tool_names) st =
           (let st1 = emit [PrintBlock block,
                            out (pack None False (Some tool_name)
                                   (Some [(child_name, PStr child_text)]) False False)] st
            in case invoke tool_func (Positional (PStr child_text)) (world st1) of
                 (Inl e, w') \<Rightarrow> (st1\<lparr>world := w'\<rparr>, Inl e)
               | (Inr result, w') \<Rightarrow>
                   (st1\<lparr>world := w'\<rparr>, Inr (tool_results @ [result], tool_names @ [tool_name])))"
proof -
  have c: "call_tool tool_func block [(child_name, child_text)] w
           = invoke tool_func (Positional (PStr child_text)) w" for w
    using assms(1,2) by (simp add: call_tool_def)
  have "xml_block E reg ag block (tool_results, tool_names) st =
           (let st1 = emit [PrintBlock block,
                            out (pack None False (Some tool_name)
                                   (Some [(child_name, PStr child_text)]) False False)] st
            in case invoke tool_func (Positional (PStr child_text)) (world st1) of
                 (Inl e, w') \<Rightarrow> (st1\<lparr>world := w'\<rparr>, Inl e)
               | (Inr result, w') \<Rightarrow>
                   (st1\<lparr>world := w'\<rparr>, Inr (tool_results @ [result], tool_names @ [tool_name])))"
    by (simp add: xml_block_def assms(3,4,5) Let_def c as_kwargs_def
        split: prod.splits sum.splits)
  with c assms(5) show ?thesis by simp
qed

text \<open>
  A registry, an agent and a parser table for the concrete inputs below. Of the callable
  attributes an agent inherits, \<open>plain_agent\<close> gives \<open>attempt_completion\<close> only: the inputs
  below name no other attribute of the agent as a tool.
\<close>

definition echo_env :: env where
  "echo_env =
     \<lparr>soup_find = (\<lambda>block. if block = ''<echo><anything>hello</anything></echo>''
                            then Some (''echo'', [Tag ''anything'' [NavigableString ''hello'']])
                            else None),
      json_loads = (\<lambda>s. Inl ''Expecting value''),
      not_a_mapping = (\<lambda>v. ''argument after ** must be a mapping'')\<rparr>"

definition echo_registry :: "call_args list tool" where
  "echo_registry =
     register_tool AllowNone ''say it again'' (Some ''echo'') ''echo'' echo
       (register_tool AllowNone ''first argument'' (Some ''tagged'') ''tagged'' tagged tool_init)"

definition plain_agent :: "call_args list agent" where
  "plain_agent =
     \<lparr>ag_uuid = ''u1'', ag_name = ''plain'', ag_class_name = ''plain'', ag_prompt = ''p'',
      fc_model = None, stream = True,
      methods = (\<lambda>n. if n = ''attempt_completion'' then Some attempt_completion else None)\<rparr>"

lemma resolve_tool_unrestricted:
  "map_of (tools reg) tool_name = Some info \<Longrightarrow> ti_allowed_agents info = None \<Longrightarrow>
   resolve_tool reg ag tool_name = Some (ti_function info)"
  by (simp add: resolve_tool_def check_permission_def get_tool_info_def)

lemma resolve_echo: "resolve_tool echo_registry plain_agent ''echo'' = Some echo"
  by (rule resolve_tool_unrestricted [where info = "\<lparr>ti_function = echo, ti_allowed_agents = None,
        ti_description = ''say it again'', ti_name = ''echo''\<rparr>", simplified])
     (simp add: echo_registry_def map_of_register_tool)

lemma resolve_tagged: "resolve_tool echo_registry plain_agent ''tagged'' = Some tagged"
  by (rule resolve_tool_unrestricted [where info = "\<lparr>ti_function = tagged, ti_allowed_agents = None,
        ti_description = ''first argument'', ti_name = ''tagged''\<rparr>", simplified])
     (simp add: echo_registry_def map_of_register_tool)

theorem single_parameter_positional_witness:
  "param_count echo = 1 \<and> \<not> has_kwargs echo
   \<and> call_tool echo ''<echo><anything>hello</anything></echo>''
        (xml_params [Tag ''anything'' [NavigableString ''hello'']]) []
      = (Inr (PStr ''hello''), [Positional (PStr ''hello'')])"
proof -
  have p: "param_count echo = 1" "\<not> has_kwargs echo"
    by (simp_all add: param_count_def has_kwargs_def echo_def)
  have s: "soup_find echo_env ''<echo><anything>hello</anything></echo>''
             = Some (''echo'', [Tag ''anything'' [NavigableString ''hello'']])"
    by (simp add: echo_env_def)
  have x: "xml_params [Tag ''anything'' [NavigableString ''hello'']] = [(''anything'', ''hello'')]"
    by (simp add: xml_params_def)
  from single_parameter_positional [OF p s resolve_echo x, of "[]"]
  have "call_tool echo ''<echo><anything>hello</anything></echo>''
          (xml_params [Tag ''anything'' [NavigableString ''hello'']]) []
        = invoke echo (Positional (PStr ''hello'')) []"
    by simp
  then show ?thesis using p by (simp add: echo_def)
qed

text \<open>
  C6 as stated fails for a callable that has one required parameter and also takes
  \<open>**kwargs\<close>: the test for \<open>**kwargs\<close> comes first, and the parameters are spread as
  keywords.
\<close>

theorem single_parameter_kwargs_counterexample:
  "param_count tagged = 1
   \<and> call_tool tagged ''<tagged><y>v</y></tagged>'' [(''y'', ''v'')] []
       = invoke tagged (Kwargs [(''y'', PStr ''v'')]) []
   \<and> call_tool tagged ''<tagged><y>v</y></tagged>'' [(''y'', ''v'')] []
       \<noteq> invoke tagged (Positional (PStr ''v'')) []"
  by (simp add: param_count_def has_kwargs_def tagged_def call_tool_def spread_def as_kwargs_def)

section \<open>Extraction of inline-tag calls\<close>

lemma no_wrapper_tag_without_lt:
  "CHR ''<'' \<noteq> c \<Longrightarrow> find (\<lambda>t. prefix t (c # cs)) wrapper_tags = None"
  by (auto simp: wrapper_tags_def)

lemma clean_sub_without_lt: "CHR ''<'' \<notin> set s \<Longrightarrow> clean_sub s = s"
  by (induction s) (simp_all add: no_wrapper_tag_without_lt)

lemma match_block_without_lt: "CHR ''<'' \<noteq> c \<Longrightarrow> match_block (c # cs) = None"
  by (auto simp: match_block_def)

lemma finditer_without_lt: "CHR ''<'' \<notin> set s \<Longrightarrow> finditer s = []"
  by (induction s) (simp_all add: match_block_without_lt)

lemma not_word_slash: "\<not> is_word_char CHR ''/''"
  by (simp add: is_word_char_def)

lemma finditer_closing_tag:
  assumes "CHR ''<'' \<notin> set r"
  shows "finditer (''</'' @ r) = []"
proof -
  have "match_block (CHR ''<'' # CHR ''/'' # r) = None"
    by (simp add: match_block_def not_word_slash)
  moreover have "finditer (CHR ''/'' # r) = []"
    using assms by (intro finditer_without_lt) simp
  ultimately show ?thesis by simp
qed

lemma xml_blocks_closing_tag:
  assumes "CHR ''<'' \<notin> set r"
  shows "xml_blocks (''</'' @ r) = []"
proof (cases "find (\<lambda>t. prefix t (''</'' @ r)) wrapper_tags")
  case None
  have "clean_sub (CHR ''/'' # r) = CHR ''/'' # r"
    using assms by (intro clean_sub_without_lt) simp
  with None have "clean_sub (''</'' @ r) = ''</'' @ r" by simp
  with finditer_closing_tag [OF assms] show ?thesis by (simp add: xml_blocks_def)
next
  case (Some t)
  then have "0 < length t" by (rule wrapper_tag_nonempty)
  then obtain n where n: "length t = Suc n" by (cases "length t") auto
  have nolt: "CHR ''<'' \<notin> set (drop n (CHR ''/'' # r))"
    using assms by (auto dest: in_set_dropD)
  from Some n have "clean_sub (''</'' @ r) = clean_sub (drop n (CHR ''/'' # r))" by simp
  also have "\<dots> = drop n (CHR ''/'' # r)" using nolt by (rule clean_sub_without_lt)
  finally show ?thesis using finditer_without_lt [OF nolt] by (simp add: xml_blocks_def)
qed

lemma no_marker_in_closing_tag:
  assumes "CHR ''<'' \<notin> set r"
  shows "\<not> sublist hard_stop_marker (''</'' @ r)"
proof
  assume "sublist hard_stop_marker (''</'' @ r)"
  then have "sublist hard_stop_marker r"
    by (simp add: sublist_Cons_right hard_stop_marker_def)
  then have "set hard_stop_marker \<subseteq> set r" by (rule set_mono_sublist)
  with assms show False by (auto simp: hard_stop_marker_def)
qed

definition foo_block :: string where
  "foo_block = ''<foo><x>1</x><y>2</y></foo>''"

lemma xml_blocks_foo: "xml_blocks foo_block = [foo_block]"
  unfolding foo_block_def by code_simp

text \<open>
  C8. The text \<open><foo><x>1</x><y>2</y></foo>\<close> gives exactly one block, the text itself.
  When the parser reads it as the tag \<open>foo\<close> with the children \<open>x\<close> and \<open>y\<close>, the
  parameters are \<open>{x: "1", y: "2"}\<close> and the tool found for \<open>foo\<close> is applied to them as
  keywords (its positional fallback on the whole block apart). A text that is one closing
  tag, \<open></\<close> followed by anything without \<open><\<close>, gives no block: no call is made, nothing
  raises, and the turn returns the text.
\<close>

theorem xml_extraction:
  assumes "soup_find E foo_block
             = Some (''foo'', [Tag ''x'' [NavigableString ''1''], Tag ''y'' [NavigableString ''2'']])"
    and "resolve_tool reg ag ''foo'' = Some tool_func"
    and "CHR ''<'' \<notin> set r"
  shows "xml_blocks foo_block = [foo_block]
    \<and> xml_params [Tag ''x'' [NavigableString ''1''], Tag ''y'' [NavigableString ''2'']]
        = [(''x'', ''1''), (''y'', ''2'')]
    \<and> call_tool tool_func foo_block [(''x'', ''1''), (''y'', ''2'')] w
        = (case invoke tool_func (Kwargs [(''x'', PStr ''1''), (''y'', PStr ''2'')]) w of
             (Inl e, w') \<Rightarrow>
               if \<not> has_kwargs tool_func \<and> param_count tool_func \<noteq> 0 \<and> is_TypeError e
               then invoke tool_func (Positional (PStr foo_block)) w' else (Inl e, w')
           | (Inr result, w') \<Rightarrow> (Inr result, w'))
    \<and> xml_blocks_loop E reg ag (xml_blocks foo_block) ([], []) st =
        (let st1 = emit [PrintBlock foo_block,
                         out (pack None False (Some ''foo'')
                                (Some [(''x'', PStr ''1''), (''y'', PStr ''2'')]) False False)] st
         in case call_tool tool_func foo_block [(''x'', ''1''), (''y'', ''2'')] (world st1) of
              (Inl e, w') \<Rightarrow> (st1\<lparr>world := w'\<rparr>, Inl e)
            | (Inr result, w') \<Rightarrow> (st1\<lparr>world := w'\<rparr>, Inr ([result], [''foo''])))
    \<and> xml_blocks (''</'' @ r) = []
    \<and> xml_turn E reg ag False (Some (''</'' @ r)) st = (st, Return (ReturnedContent (''</'' @ r)))"
proof -
  have p: "xml_params [Tag ''x'' [NavigableString ''1''], Tag ''y'' [NavigableString ''2'']]
        = [(''x'', ''1''), (''y'', ''2'')]"
    by (simp add: xml_params_def)
  have c: "call_tool tool_func foo_block [(''x'', ''1''), (''y'', ''2'')] w
        = (case invoke tool_func (Kwargs [(''x'', PStr ''1''), (''y'', PStr ''2'')]) w of
             (Inl e, w') \<Rightarrow>
               if \<not> has_kwargs tool_func \<and> param_count tool_func \<noteq> 0 \<and> is_TypeError e
               then invoke tool_func (Positional (PStr foo_block)) w' else (Inl e, w')
           | (Inr result, w') \<Rightarrow> (Inr result, w'))"
    by (cases "invoke tool_func (Kwargs [(''x'', PStr ''1''), (''y'', PStr ''2'')]) w")
       (auto simp: call_tool_def spread_def as_kwargs_def split: sum.splits)
  have l: "xml_blocks_loop E reg ag (xml_blocks foo_block) ([], []) st =
        (let st1 = emit [PrintBlock foo_block,
                         out (pack None False (Some ''foo'')
                                (Some [(''x'', PStr ''1''), (''y'', PStr ''2'')]) False False)] st
         in case call_tool tool_func foo_block [(''x'', ''1''), (''y'', ''2'')] (world st1) of
              (Inl e, w') \<Rightarrow> (st1\<lparr>world := w'\<rparr>, Inl e)
            | (Inr result, w') \<Rightarrow> (st1\<lparr>world := w'\<rparr>, Inr ([result], [''foo''])))"
    by (simp add: xml_blocks_foo xml_block_def assms(1,2) p Let_def as_kwargs_def
        split: prod.splits sum.splits)
  have t: "xml_turn E reg ag False (Some (''</'' @ r)) st = (st, Return (ReturnedContent (''</'' @ r)))"
    using xml_blocks_closing_tag [OF assms(3)] no_marker_in_closing_tag [OF assms(3)]
    by (simp add: xml_turn_def finish_turn_def)
  from p c l t xml_blocks_foo xml_blocks_closing_tag [OF assms(3)] show ?thesis by blast
qed


definition foo_env :: env where
  "foo_env =
     \<lparr>soup_find = (\<lambda>block. if block = foo_block
                            then Some (''foo'', [Tag ''x'' [NavigableString ''1''],
                                                 Tag ''y'' [NavigableString ''2'']])
                            else None),
      json_loads = (\<lambda>s. Inl ''Expecting value''),
      not_a_mapping = (\<lambda>v. ''argument after ** must be a mapping'')\<rparr>"

text \<open>\<open>def foo(x, y)\<close>, returning \<open>x\<close>, with the log of its calls as the world.\<close>

definition foo :: "call_args list callable" where
  "foo =
     \<lparr>signature = [\<lparr>p_name = ''x'', p_kind = POSITIONAL_OR_KEYWORD, p_has_default = False\<rparr>,
                   \<lparr>p_name = ''y'', p_kind = POSITIONAL_OR_KEYWORD, p_has_default = False\<rparr>],
      invoke = (\<lambda>args w.
        (case args of
           Kwargs kwargs \<Rightarrow>
             (if map fst kwargs = [''x'', ''y''] then Inr (snd (hd kwargs))
              else Inl (Exn TypeError ''foo() got an unexpected keyword argument''))
         | _ \<Rightarrow> Inl (Exn TypeError ''foo() missing 1 required positional argument''),
         w @ [args]))\<rparr>"

definition foo_registry :: "call_args list tool" where
  "foo_registry = register_tool AllowNone ''first of two'' (Some ''foo'') ''foo'' foo tool_init"

definition idle_state :: "call_args list agent_state" where
  "idle_state = \<lparr>history = [Msg System (Text ''p'')], out_log = [], sent = [], world = []\<rparr>"

lemma resolve_foo: "resolve_tool foo_registry plain_agent ''foo'' = Some foo"
  by (rule resolve_tool_unrestricted [where info = "\<lparr>ti_function = foo, ti_allowed_agents = None,
        ti_description = ''first of two'', ti_name = ''foo''\<rparr>", simplified])
     (simp add: foo_registry_def map_of_register_tool)

theorem xml_extraction_witness:
  "xml_blocks foo_block = [foo_block]
   \<and> call_tool foo foo_block [(''x'', ''1''), (''y'', ''2'')] []
       = (Inr (PStr ''1''), [Kwargs [(''x'', PStr ''1''), (''y'', PStr ''2'')]])
   \<and> xml_blocks ''</foo>'' = []
   \<and> xml_turn foo_env foo_registry plain_agent False (Some ''</foo>'') idle_state
       = (idle_state, Return (ReturnedContent ''</foo>''))"
proof -
  have s: "soup_find foo_env foo_block
             = Some (''foo'', [Tag ''x'' [NavigableString ''1''], Tag ''y'' [NavigableString ''2'']])"
    by (simp add: foo_env_def)
  have r: "CHR ''<'' \<notin> set ''foo>''" by simp
  from xml_extraction [OF s resolve_foo r, of "[]" idle_state]
  show ?thesis by (simp add: foo_def)
qed

section \<open>Exceptions raised by a tool\<close>

text \<open>
  On the native path the \<open>try\<close> around the call turns every \<open>Exception\<close> into a result;
  only \<open>SystemExit\<close> and \<open>KeyboardInterrupt\<close> leave the dispatch loop.
\<close>

lemma fc_call_catches:
  "fc_call E reg ag tool_call tool_results st = (st', Inl e) \<Longrightarrow> \<not> is_Exception e"
  by (auto simp: fc_call_def Let_def split: option.splits prod.splits sum.splits if_splits)

lemma fc_calls_catches:
  "fc_calls E reg ag tool_calls tool_results st = (st', Inl e) \<Longrightarrow> \<not> is_Exception e"
proof (induction tool_calls arbitrary: tool_results st)
  case Nil
  then show ?case by simp
next
  case (Cons tool_call rest)
  obtain st1 r where c: "fc_call E reg ag tool_call tool_results st = (st1, r)"
    by (cases "fc_call E reg ag tool_call tool_results st")
  show ?case
  proof (cases r)
    case (Inl e')
    with c Cons.prems have "e' = e" by simp
    with c Inl show ?thesis using fc_call_catches by blast
  next
    case (Inr tool_results')
    with c Cons.prems have "fc_calls E reg ag rest tool_results' st1 = (st', Inl e)" by simp
    then show ?thesis by (rule Cons.IH)
  qed
qed

text \<open>\<open>def boom(): raise ValueError("boom")\<close>.\<close>

definition boom :: "call_args list callable" where
  "boom = \<lparr>signature = [], invoke = (\<lambda>args w. (Inl (Exn ValueError ''boom''), w @ [args]))\<rparr>"

definition boom_env :: env where
  "boom_env =
     \<lparr>soup_find = (\<lambda>block. if block = ''<boom></boom>'' then Some (''boom'', []) else None),
      json_loads = (\<lambda>s. if s = ''{}'' then Inr (PDict []) else Inl ''Expecting value''),
      not_a_mapping = (\<lambda>v. ''argument after ** must be a mapping'')\<rparr>"

definition boom_registry :: "call_args list tool" where
  "boom_registry = register_tool AllowNone ''always fails'' (Some ''boom'') ''boom'' boom tool_init"

lemma resolve_boom: "resolve_tool boom_registry ag ''boom'' = Some boom"
  by (rule resolve_tool_unrestricted [where info = "\<lparr>ti_function = boom, ti_allowed_agents = None,
        ti_description = ''always fails'', ti_name = ''boom''\<rparr>", simplified])
     (simp add: boom_registry_def map_of_register_tool)

lemma xml_blocks_boom: "xml_blocks ''<boom></boom>'' = [''<boom></boom>'']"
  by code_simp

definition boom_response :: response where
  "boom_response =
     \<lparr>rsp_chunks = [\<lparr>ch_tool_calls = [], ch_content = Some ''<boom></boom>'', ch_usage = None\<rparr>],
      rsp_json = None, rsp_text = []\<rparr>"

lemma conversation_loop_raise:
  "turn E reg ag tool rsp (send reg ag st) = (st', Raise e) \<Longrightarrow>
   conversation_loop E reg ag tool (rsp # rsps) st = (st', Raised e)"
  by simp

lemma conversation_loop_return:
  "turn E reg ag tool rsp (send reg ag st) = (st', Return r) \<Longrightarrow>
   conversation_loop E reg ag tool (rsp # rsps) st = (st', Returned r)"
  by simp

lemma conversation_loop_continue:
  "turn E reg ag tool rsp (send reg ag st) = (st', Continue) \<Longrightarrow>
   conversation_loop E reg ag tool (rsp # rsps) st = conversation_loop E reg ag True rsps st'"
  by simp

lemma plain_agent_xml: "\<not> fc_enabled plain_agent"
  by (simp add: fc_enabled_def plain_agent_def)

text \<open>
  C2, at a failing input. On the inline-tag path nothing catches what the callable raises:
  with the registered tool \<open>boom\<close>, which raises \<open>ValueError("boom")\<close>, the model output
  \<open><boom></boom>\<close> makes \<open>conversation_with_tool\<close> itself raise that \<open>ValueError\<close>.
\<close>

theorem xml_tool_exception_escapes:
  "snd (conversation_with_tool boom_env boom_registry plain_agent (Some ''go'') False []
          [boom_response] idle_state)
     = Raised (Exn ValueError ''boom'')"
proof -
  have b: "xml_block boom_env boom_registry plain_agent ''<boom></boom>'' ([], []) st
        = (emit [PrintBlock ''<boom></boom>'', PrintMessage None] st\<lparr>world := world st @ [NoArgs]\<rparr>,
           Inl (Exn ValueError ''boom''))" for st
    by (simp add: xml_block_def boom_env_def resolve_boom xml_params_def call_tool_def
        has_kwargs_def param_count_def boom_def spread_def as_kwargs_def pack_def emit_def)
  have r: "receive plain_agent boom_response st
        = (emit [PrintMessage (Some ''<boom></boom>'')] st, Inr (Some ''<boom></boom>'', []))" for st
    by (simp add: receive_def plain_agent_def boom_response_def fc_enabled_def pack_def Let_def)
  have t: "snd (turn boom_env boom_registry plain_agent False boom_response st)
        = Raise (Exn ValueError ''boom'')" for st
    by (simp add: turn_def r xml_turn_def xml_blocks_boom b plain_agent_xml)
  let ?st = "append_user_message (Some ''go'') [] idle_state"
  obtain st' where "turn boom_env boom_registry plain_agent False boom_response
      (send boom_registry plain_agent ?st) = (st', Raise (Exn ValueError ''boom''))"
    using t [of "send boom_registry plain_agent ?st"] by (metis prod.collapse)
  from conversation_loop_raise [OF this, of "[]"] show ?thesis
    unfolding conversation_with_tool_def by (simp del: conversation_loop.simps)
qed


text \<open>The same tool called on the native path: the exception becomes the content of a result.\<close>

lemma fc_tool_exception_caught:
  "fc_call boom_env boom_registry plain_agent
     \<lparr>tc_id = Some ''call_1'', tc_name = ''boom'', tc_arguments = ''{}''\<rparr> [] idle_state
   = (emit [PrintMessage None] idle_state\<lparr>world := [NoArgs]\<rparr>,
      Inr [FcResult (Some ''call_1'') ''boom'' (PStr (fc_error_msg ''boom'' ''boom''))])"
  by (simp add: fc_call_def resolve_boom fc_try_def boom_env_def boom_def spread_def pack_def
      emit_def idle_state_def Let_def)

section \<open>A block without root element\<close>

lemma xml_blocks_loop_append:
  "xml_blocks_loop E reg ag (pre @ post) acc st =
     (case xml_blocks_loop E reg ag pre acc st of
        (st', Inl e) \<Rightarrow> (st', Inl e)
      | (st', Inr acc') \<Rightarrow> xml_blocks_loop E reg ag post acc' st')"
proof (induction pre arbitrary: acc st)
  case Nil
  then show ?case by simp
next
  case (Cons b pre)
  show ?case
    by (cases "xml_block E reg ag b acc st") (auto simp: Cons.IH split: sum.splits)
qed

lemma xml_block_empty_root:
  "soup_find E block = None \<Longrightarrow>
   xml_block E reg ag block acc st = (st, Inl (Exn ValueError empty_xml_text))"
  by (cases acc) (simp add: xml_block_def)

text \<open>
  The \<open>raise ValueError\<close> of line 392 is inside the block loop and nothing around the
  loop catches it: it ends the loop and the turn, after the blocks before it.
\<close>

lemma xml_turn_empty_root:
  assumes "soup_find E block = None"
    and "xml_blocks text = pre @ block # post"
    and "xml_blocks_loop E reg ag pre ([], []) st = (st1, Inr acc1)"
  shows "xml_turn E reg ag tool (Some text) st = (st1, Raise (Exn ValueError empty_xml_text))"
proof -
  have "xml_blocks_loop E reg ag (pre @ block # post) ([], []) st
          = xml_blocks_loop E reg ag (block # post) acc1 st1"
    using assms(3) by (simp add: xml_blocks_loop_append)
  also have "\<dots> = (st1, Inl (Exn ValueError empty_xml_text))"
    by (simp add: xml_block_empty_root [OF assms(1)])
  finally have l: "xml_blocks_loop E reg ag (xml_blocks text) ([], []) st
                     = (st1, Inl (Exn ValueError empty_xml_text))"
    using assms(2) by simp
  then show ?thesis by (simp add: xml_turn_def)
qed

text \<open>
  Concrete blocks: \<open>echo_env\<close> reads the first as the tag \<open>echo\<close> and finds no root
  element in the second.
\<close>

definition echo_block :: string where
  "echo_block = ''<echo><anything>hello</anything></echo>''"

definition digit_block :: string where
  "digit_block = ''<1>x</1>''"

lemma xml_blocks_echo_digit_echo:
  "xml_blocks (echo_block @ digit_block @ echo_block) = [echo_block] @ digit_block # [echo_block]"
  unfolding echo_block_def digit_block_def by code_simp

lemma soup_find_digit: "soup_find echo_env digit_block = None"
  by (simp add: echo_env_def digit_block_def)

lemma soup_find_echo:
  "soup_find echo_env echo_block = Some (''echo'', [Tag ''anything'' [NavigableString ''hello'']])"
  by (simp add: echo_env_def echo_block_def)

definition echo_digit_echo_response :: response where
  "echo_digit_echo_response =
     \<lparr>rsp_chunks = [\<lparr>ch_tool_calls = [], ch_content = Some (echo_block @ digit_block @ echo_block),
                     ch_usage = None\<rparr>],
      rsp_json = None, rsp_text = []\<rparr>"

lemma echo_block_called:
  "xml_blocks_loop echo_env echo_registry plain_agent [echo_block] ([], []) st
     = (emit [PrintBlock echo_block, PrintMessage None]
          st\<lparr>world := world st @ [Positional (PStr ''hello'')]\<rparr>,
        Inr ([PStr ''hello''], [''echo'']))"
  by (simp add: xml_block_def soup_find_echo resolve_echo xml_params_def call_tool_def
      has_kwargs_def param_count_def echo_def as_kwargs_def pack_def emit_def)

text \<open>
  C4, at a failing input. The model output is a valid \<open>echo\<close> block, then a block in which
  the parser finds no root element, then a second valid \<open>echo\<close> block. The error is not
  kept to its block: \<open>conversation_with_tool\<close> raises \<open>ValueError\<close>; \<open>echo\<close> has been called
  once, not twice; the history holds neither an error entry for the block nor the result
  of the first call.
\<close>

theorem empty_root_exception_escapes:
  "snd (conversation_with_tool echo_env echo_registry plain_agent (Some ''go'') False []
          [echo_digit_echo_response] idle_state)
     = Raised (Exn ValueError empty_xml_text)
   \<and> world (fst (conversation_with_tool echo_env echo_registry plain_agent (Some ''go'') False []
          [echo_digit_echo_response] idle_state))
     = [Positional (PStr ''hello'')]
   \<and> history (fst (conversation_with_tool echo_env echo_registry plain_agent (Some ''go'') False []
          [echo_digit_echo_response] idle_state))
     = [Msg System (Text ''p''), Msg User (Text ''go'')]"
proof -
  let ?text = "echo_block @ digit_block @ echo_block"
  let ?sa = "append_user_message (Some ''go'') [] idle_state"
  let ?sb = "emit [PrintMessage (Some ?text)] (send echo_registry plain_agent ?sa)"
  let ?sc = "emit [PrintBlock echo_block, PrintMessage None]
                ?sb\<lparr>world := world ?sb @ [Positional (PStr ''hello'')]\<rparr>"
  have r: "receive plain_agent echo_digit_echo_response st
        = (emit [PrintMessage (Some ?text)] st, Inr (Some ?text, []))" for st
  proof -
    have ne: "echo_block \<noteq> []" by (simp add: echo_block_def)
    show ?thesis
      by (simp add: receive_def plain_agent_def echo_digit_echo_response_def fc_enabled_def
          pack_def Let_def ne)
  qed
  have x: "xml_turn echo_env echo_registry plain_agent False (Some ?text) ?sb
             = (?sc, Raise (Exn ValueError empty_xml_text))"
    by (rule xml_turn_empty_root [OF soup_find_digit xml_blocks_echo_digit_echo echo_block_called])
  have t: "turn echo_env echo_registry plain_agent False echo_digit_echo_response
             (send echo_registry plain_agent ?sa) = (?sc, Raise (Exn ValueError empty_xml_text))"
    by (simp add: turn_def r x plain_agent_xml)
  have c: "conversation_with_tool echo_env echo_registry plain_agent (Some ''go'') False []
          [echo_digit_echo_response] idle_state = (?sc, Raised (Exn ValueError empty_xml_text))"
    unfolding conversation_with_tool_def
    using conversation_loop_raise [OF t, of "[]"] by (simp del: conversation_loop.simps)
  show ?thesis
    unfolding c by (simp add: emit_def send_def append_user_message_def idle_state_def Let_def)
qed

section \<open>What a turn leaves unchanged\<close>

text \<open>
  Receiving and processing blocks never touch the log of requests, and only append to the
  history.
\<close>

lemma emit_fields [simp]:
  "sent (emit events st) = sent st" "history (emit events st) = history st"
  "world (emit events st) = world st"
  by (simp_all add: emit_def)













section \<open>An unknown tool name\<close>












section \<open>The hard stop\<close>

text \<open>
  On the inline-tag path a text that contains the marker never lets the loop go on: the turn
  ends in an exception, and in \<open>sys.exit(0)\<close> after the completion message when the blocks
  raise nothing (lines 461 to 464).
\<close>

lemma xml_turn_hard_stop:
  assumes "sublist hard_stop_marker text"
  shows "\<exists>e. snd (xml_turn E reg ag tool (Some text) st) = Raise e"
proof (cases "xml_blocks_loop E reg ag (xml_blocks text) ([], []) st")
  case (Pair st1 r)
  then show ?thesis
    using assms by (cases r) (auto simp: xml_turn_def finish_turn_def)
qed

lemma xml_turn_hard_stop_exit:
  assumes "sublist hard_stop_marker text"
    and "xml_blocks_loop E reg ag (xml_blocks text) ([], []) st = (st1, Inr acc)"
  shows "xml_turn E reg ag tool (Some text) st =
           (emit [PrintMessage (Some exit_msg)] st1, Raise sys_exit_0)"
  using assms by (cases acc) (simp add: xml_turn_def finish_turn_def pack_def)

text \<open>
  An agent with \<open>fc_model = True\<close> and an answer whose text is the marker and whose second
  chunk calls the registered tool \<open>echo\<close> with the arguments \<open>{"text": "hi"}\<close>.
\<close>

definition fc_agent :: "call_args list agent" where
  "fc_agent = plain_agent\<lparr>fc_model := Some True\<rparr>"

definition echo_args :: string where
  "echo_args = ''{'' @ [CHR 0x22] @ ''text'' @ [CHR 0x22] @ '': '' @ [CHR 0x22] @ ''hi''
                 @ [CHR 0x22] @ ''}''"

definition fc_env :: env where
  "fc_env =
     \<lparr>soup_find = (\<lambda>block. None),
      json_loads = (\<lambda>s. if s = echo_args then Inr (PDict [(''text'', PStr ''hi'')])
                         else Inl ''Expecting value''),
      not_a_mapping = (\<lambda>v. ''argument after ** must be a mapping'')\<rparr>"

definition echo_call :: tool_call where
  "echo_call = \<lparr>tc_id = Some ''call_1'', tc_name = ''echo'', tc_arguments = echo_args\<rparr>"

definition marker_and_call_response :: response where
  "marker_and_call_response =
     \<lparr>rsp_chunks =
        [\<lparr>ch_tool_calls = [], ch_content = Some ''<attempt_completion>'', ch_usage = None\<rparr>,
         \<lparr>ch_tool_calls =
            [\<lparr>fr_index = Some 0, fr_id = Some ''call_1'',
              fr_function = Some \<lparr>ff_name = Some ''echo'', ff_arguments = Some echo_args\<rparr>\<rparr>],
          ch_content = None, ch_usage = None\<rparr>],
      rsp_json = None, rsp_text = []\<rparr>"

lemma resolve_echo_fc: "resolve_tool echo_registry fc_agent ''echo'' = Some echo"
  by (rule resolve_tool_unrestricted [where info = "\<lparr>ti_function = echo, ti_allowed_agents = None,
        ti_description = ''say it again'', ti_name = ''echo''\<rparr>", simplified])
     (simp add: echo_registry_def map_of_register_tool)

lemma fc_agent_fc: "fc_enabled fc_agent" "stream fc_agent"
  by (simp_all add: fc_agent_def fc_enabled_def plain_agent_def)

lemma receive_marker_and_call:
  "receive fc_agent marker_and_call_response st
     = (emit [PrintMessage (Some ''<attempt_completion>'')] st,
        Inr (Some ''<attempt_completion>'', [echo_call]))"
  by (simp add: receive_def fc_agent_fc marker_and_call_response_def pack_def Let_def
      accumulate_call_def echo_call_def)

lemma fc_turn_echo_call:
  "fc_turn fc_env echo_registry fc_agent [echo_call] st
     = (emit [PrintMessage None]
          (st\<lparr>history := history st @ [AssistantToolCalls [echo_call]]\<rparr>)
          \<lparr>world := world st @ [Kwargs [(''text'', PStr ''hi'')]],
            history := history st @ [AssistantToolCalls [echo_call],
                                     ToolMsg (Some ''call_1'') ''echo'' (PStr ''hi'')]\<rparr>,
        Continue)"
  by (simp add: fc_turn_def fc_call_def resolve_echo_fc fc_try_def fc_env_def echo_def
      spread_def pack_def emit_def Let_def echo_call_def)

text \<open>
  C1, at a failing input. The answer's text contains \<open><attempt_completion>\<close> and the turn
  has one valid native call. The native branch returns through line 377 before the check
  of line 462 is reached: \<open>echo\<close> is called, the process does not exit, and the continuation
  request is sent (two requests in all), the loop being left waiting for its answer.
\<close>

theorem fc_turn_skips_hard_stop:
  "snd (receive fc_agent marker_and_call_response
          (send echo_registry fc_agent (append_user_message (Some ''go'') [] idle_state)))
     = Inr (Some ''<attempt_completion>'', [echo_call])
   \<and> sublist hard_stop_marker ''<attempt_completion>''
   \<and> snd (conversation_with_tool fc_env echo_registry fc_agent (Some ''go'') False []
            [marker_and_call_response] idle_state)
       = AwaitingResponse
   \<and> length (sent (fst (conversation_with_tool fc_env echo_registry fc_agent (Some ''go'') False []
            [marker_and_call_response] idle_state)))
       = 2
   \<and> world (fst (conversation_with_tool fc_env echo_registry fc_agent (Some ''go'') False []
            [marker_and_call_response] idle_state))
       = [Kwargs [(''text'', PStr ''hi'')]]"
proof -
  let ?sa = "append_user_message (Some ''go'') [] idle_state"
  let ?sb = "emit [PrintMessage (Some ''<attempt_completion>'')] (send echo_registry fc_agent ?sa)"
  let ?sc = "emit [PrintMessage None]
          (?sb\<lparr>history := history ?sb @ [AssistantToolCalls [echo_call]]\<rparr>)
          \<lparr>world := world ?sb @ [Kwargs [(''text'', PStr ''hi'')]],
            history := history ?sb @ [AssistantToolCalls [echo_call],
                                     ToolMsg (Some ''call_1'') ''echo'' (PStr ''hi'')]\<rparr>"
  have t: "turn fc_env echo_registry fc_agent False marker_and_call_response
             (send echo_registry fc_agent ?sa) = (?sc, Continue)"
    by (simp add: turn_def receive_marker_and_call fc_agent_fc fc_turn_echo_call)
  have c: "conversation_with_tool fc_env echo_registry fc_agent (Some ''go'') False []
            [marker_and_call_response] idle_state = (send echo_registry fc_agent ?sc, AwaitingResponse)"
    unfolding conversation_with_tool_def
    using conversation_loop_continue [OF t, of "[]"] by simp
  have m: "sublist hard_stop_marker ''<attempt_completion>''"
    by (simp add: hard_stop_marker_def)
  show ?thesis
    unfolding c receive_marker_and_call
    using m by (simp add: emit_def send_def append_user_message_def idle_state_def Let_def)
qed

text \<open>The same answer to an agent without native calls: the check of line 462 is reached.\<close>

lemma xml_turn_reaches_hard_stop:
  "snd (conversation_with_tool fc_env echo_registry plain_agent (Some ''go'') False []
          [marker_and_call_response] idle_state)
     = Raised sys_exit_0"
proof -
  have r: "receive plain_agent marker_and_call_response st
        = (emit [PrintMessage (Some ''<attempt_completion>'')] st,
           Inr (Some ''<attempt_completion>'', []))" for st
    by (simp add: receive_def plain_agent_def marker_and_call_response_def fc_enabled_def
        pack_def Let_def)
  have b: "xml_blocks ''<attempt_completion>'' = []" by code_simp
  have m: "sublist hard_stop_marker ''<attempt_completion>''"
    by (simp add: hard_stop_marker_def)
  have t: "snd (turn fc_env echo_registry plain_agent False marker_and_call_response st)
        = Raise sys_exit_0" for st
    by (simp add: turn_def r plain_agent_xml xml_turn_hard_stop_exit [OF m] b)
  let ?sa = "append_user_message (Some ''go'') [] idle_state"
  obtain st' where "turn fc_env echo_registry plain_agent False marker_and_call_response
      (send echo_registry plain_agent ?sa) = (st', Raise sys_exit_0)"
    using t [of "send echo_registry plain_agent ?sa"] by (metis prod.collapse)
  from conversation_loop_raise [OF this, of "[]"] show ?thesis
    unfolding conversation_with_tool_def by (simp del: conversation_loop.simps)
qed

end
